theory Spec2Isabelle
  imports Main
begin

section \<open>The arena of google/protobuf/arena.cc\<close>

text \<open>
  Addresses and sizes are natural numbers; \<open>size_t\<close> is 64 bits wide and the one
  multiplication of the source that can wrap is written with \<open>mod 2 ^ 64\<close>.
  The null pointer is address 0. A function pointer is \<open>None\<close> when null and
  \<open>Some f\<close> for the hook numbered \<open>f\<close>.
\<close>

type_synonym addr = nat

definition SIZE_MAX :: nat where
  "SIZE_MAX = 2 ^ 64 - 1"

text \<open>
  The constants of arena_impl.h, which arena.cc uses and does not define, are taken as
  parameters: the sizes of the block header, of a SerialArena, of a cleanup node and of
  an AllocationPolicy (each rounded up to 8 by the header), the two sizes of the default
  policy, and whether the GOOGLE_DCHECK assertions are compiled in.
\<close>

record arena_consts =
  kBlockHeaderSize :: nat
  kSerialArenaSize :: nat
  kCleanupSize :: nat
  kAPSize :: nat
  kDefaultStartBlockSize :: nat
  kDefaultMaxBlockSize :: nat
  dchecks :: bool

record AllocationPolicy =
  start_block_size :: nat
  max_block_size :: nat
  block_alloc :: "nat option"
  block_dealloc :: "nat option"
  metrics_collector :: "nat option"

definition default_policy :: "arena_consts \<Rightarrow> AllocationPolicy" where
  "default_policy K =
     \<lparr>start_block_size = kDefaultStartBlockSize K,
      max_block_size = kDefaultMaxBlockSize K,
      block_alloc = None, block_dealloc = None, metrics_collector = None\<rparr>"

record Memory =
  ptr :: addr
  msize :: nat

record CleanupNode =
  elem :: addr
  cleanup :: nat

datatype error = FATAL | UseAfterFree | NotModelled

datatype event =
    OperatorNew nat addr
  | BlockAlloc nat nat addr
  | OperatorDelete addr nat
  | BlockDealloc nat addr nat
  | Cleanup nat addr
  | CleanupGarbage addr
  | OnReset nat nat
  | OnDestroy nat nat
  | OnAlloc nat nat

text \<open>
  The world outside the arena: the trace of calls the arena has made (oldest first), the
  addresses the allocators hand out (\<open>fresh k\<close> is the result of the k-th allocation),
  and the two kinds of object the arena keeps inside its own blocks, cleanup nodes and the
  AllocationPolicy copy, each as a store from addresses to values.
\<close>

record world =
  events :: "event list"
  nallocs :: nat
  fresh :: "nat \<Rightarrow> addr"
  nodes :: "addr \<Rightarrow> CleanupNode option"
  policies :: "addr \<Rightarrow> AllocationPolicy option"

definition emit :: "event \<Rightarrow> world \<Rightarrow> world" where
  "emit e w = w\<lparr>events := events w @ [e]\<rparr>"

subsection \<open>AllocateMemory\<close>

text \<open>
  The size computation of AllocateMemory, lines 60 to 71: \<open>Inl FATAL\<close> is the failed
  GOOGLE_CHECK_LE.
\<close>

definition block_size_for :: "arena_consts \<Rightarrow> AllocationPolicy \<Rightarrow> nat \<Rightarrow> nat \<Rightarrow> error + nat" where
  "block_size_for K policy last_size min_bytes =
     (let size0 = (if last_size \<noteq> 0
                   then min ((2 * last_size) mod 2 ^ 64) (max_block_size policy)
                   else start_block_size policy)
      in if min_bytes \<le> SIZE_MAX - kBlockHeaderSize K
         then Inr (max size0 (kBlockHeaderSize K + min_bytes))
         else Inl FATAL)"

text \<open>
  AllocateMemory: \<open>policy_ptr\<close> is the dereferenced policy pointer, \<open>None\<close> when null.
\<close>

definition AllocateMemory ::
  "arena_consts \<Rightarrow> world \<Rightarrow> AllocationPolicy option \<Rightarrow> nat \<Rightarrow> nat \<Rightarrow> error + (world \<times> Memory)" where
  "AllocateMemory K w policy_ptr last_size min_bytes =
     (let policy = (case policy_ptr of None \<Rightarrow> default_policy K | Some p \<Rightarrow> p)
      in case block_size_for K policy last_size min_bytes of
           Inl e \<Rightarrow> Inl e
         | Inr sz \<Rightarrow>
             (let mem = fresh w (nallocs w);
                  ev = (case block_alloc policy of
                          None \<Rightarrow> OperatorNew sz mem
                        | Some f \<Rightarrow> BlockAlloc f sz mem)
              in Inr (emit ev (w\<lparr>nallocs := Suc (nallocs w)\<rparr>), \<lparr>ptr = mem, msize = sz\<rparr>)))"

text \<open>
  Reading a policy through a pointer: the null pointer gives no policy, a pointer into
  memory that has been given back is a use after free.
\<close>

definition load_policy :: "world \<Rightarrow> addr \<Rightarrow> error + AllocationPolicy option" where
  "load_policy w p =
     (if p = 0 then Inr None
      else case policies w p of None \<Rightarrow> Inl UseAfterFree | Some pol \<Rightarrow> Inr (Some pol))"

subsection \<open>GetDeallocator\<close>

text \<open>
  Memory handed to a deallocator is gone: the cleanup nodes and the policy copy stored
  inside it can no longer be read.
\<close>

definition inside :: "Memory \<Rightarrow> addr \<Rightarrow> bool" where
  "inside mem a = (ptr mem \<le> a \<and> a < ptr mem + msize mem)"

definition release :: "Memory \<Rightarrow> world \<Rightarrow> world" where
  "release mem w =
     w\<lparr>nodes := (\<lambda>a. if inside mem a then None else nodes w a),
       policies := (\<lambda>a. if inside mem a then None else policies w a)\<rparr>"

text \<open>
  The constructor of GetDeallocator reads \<open>policy->block_dealloc\<close>; its call operator
  (lines 88 to 104) deallocates and adds the size to the counter it points to. The
  counter is a natural number: the blocks are disjoint parts of one address space, so
  their sizes do not add up to \<open>2 ^ 64\<close>.
\<close>

definition GetDeallocator :: "world \<Rightarrow> addr \<Rightarrow> error + nat option" where
  "GetDeallocator w policy =
     (case load_policy w policy of
        Inl e \<Rightarrow> Inl e
      | Inr None \<Rightarrow> Inr None
      | Inr (Some pol) \<Rightarrow> Inr (block_dealloc pol))"

definition deallocator :: "nat option \<Rightarrow> world \<times> nat \<Rightarrow> Memory \<Rightarrow> world \<times> nat" where
  "deallocator dealloc st mem =
     (let w = fst st; space_allocated = snd st;
          ev = (case dealloc of
                  Some f \<Rightarrow> BlockDealloc f (ptr mem) (msize mem)
                | None \<Rightarrow> OperatorDelete (ptr mem) (msize mem))
      in (release mem (emit ev w), space_allocated + msize mem))"

subsection \<open>SerialArena\<close>

text \<open>
  A block is its address, its \<open>size\<close> field and its \<open>start\<close> field; the \<open>next\<close> links
  are the order of a list. A SerialArena has its head block and, behind it, the sa_chain of
  older blocks that \<open>head_->next\<close> leads to, newest first.
\<close>

record Block =
  base :: addr
  bsize :: nat
  start :: addr

record SerialArena =
  sa_owner :: addr
  sa_head :: Block
  sa_chain :: "Block list"
  sa_space_used :: nat
  sa_space_allocated :: nat
  sa_ptr :: addr
  sa_limit :: addr

text \<open>\<open>n & static_cast<size_t>(-8)\<close> clears the three low bits of \<open>n\<close>.\<close>

definition mask8 :: "nat \<Rightarrow> nat" where
  "mask8 n = n - n mod 8"

definition Pointer :: "Block \<Rightarrow> nat \<Rightarrow> addr" where
  "Pointer b n = base b + n"

text \<open>
  \<open>Block{next, size}\<close> leaves \<open>start\<close> null. The constructor of SerialArena, lines 111 to
  116, and SerialArena::New, whose GOOGLE_DCHECK_LE fails only where the assertions are
  compiled in.
\<close>

definition new_Block :: "addr \<Rightarrow> nat \<Rightarrow> Block" where
  "new_Block p sz = \<lparr>base = p, bsize = sz, start = 0\<rparr>"

definition SerialArena_ctor :: "arena_consts \<Rightarrow> Block \<Rightarrow> addr \<Rightarrow> SerialArena" where
  "SerialArena_ctor K b owner =
     \<lparr>sa_owner = owner, sa_head = b, sa_chain = [], sa_space_used = 0,
      sa_space_allocated = bsize b,
      sa_ptr = Pointer b (kBlockHeaderSize K + kSerialArenaSize K),
      sa_limit = Pointer b (mask8 (bsize b))\<rparr>"

definition New :: "arena_consts \<Rightarrow> Memory \<Rightarrow> addr \<Rightarrow> error + SerialArena" where
  "New K mem owner =
     (if dchecks K \<and> \<not> kBlockHeaderSize K + kSerialArenaSize K \<le> msize mem then Inl FATAL
      else Inr (SerialArena_ctor K (new_Block (ptr mem) (msize mem)) owner))"

text \<open>SerialArena::AllocateNewBlock, lines 152 to 172.\<close>

definition AllocateNewBlock ::
  "arena_consts \<Rightarrow> world \<Rightarrow> SerialArena \<Rightarrow> nat \<Rightarrow> addr \<Rightarrow> error + (world \<times> SerialArena)" where
  "AllocateNewBlock K w s n policy =
     (let old = (sa_head s)\<lparr>start := sa_limit s\<rparr>;
          used = sa_space_used s + (sa_ptr s - Pointer old (kBlockHeaderSize K))
      in case load_policy w policy of
           Inl e \<Rightarrow> Inl e
         | Inr pol \<Rightarrow>
             (case AllocateMemory K w pol (bsize old) n of
                Inl e \<Rightarrow> Inl e
              | Inr (w', mem) \<Rightarrow>
                  (let b = new_Block (ptr mem) (msize mem)
                   in Inr (w', s\<lparr>sa_head := b, sa_chain := old # sa_chain s,
                                 sa_space_used := used,
                                 sa_space_allocated := sa_space_allocated s + msize mem,
                                 sa_ptr := Pointer b (kBlockHeaderSize K),
                                 sa_limit := Pointer b (bsize b)\<rparr>))))"

subsection \<open>The allocation paths of SerialArena\<close>

text \<open>
  The record fields \<open>sa_owner\<close>, \<open>sa_head\<close>, \<open>sa_space_used\<close>, \<open>sa_space_allocated\<close>,
  \<open>sa_ptr\<close> and \<open>sa_limit\<close> are the members \<open>owner_\<close>, \<open>head_\<close>, \<open>space_used_\<close>,
  \<open>space_allocated_\<close>, \<open>ptr_\<close> and \<open>limit_\<close> of the source.
\<close>

definition AlignUpTo8 :: "nat \<Rightarrow> nat" where
  "AlignUpTo8 n = ((n + 7) div 8) * 8"

text \<open>
  Modelled from the spec: the inline members of SerialArena declared in arena_impl.h
  (HasSpace, AllocateAligned, AllocateAlignedWithCleanup, MaybeAllocateAligned and
  AddCleanup) are missing from the sources. Section 4.2 of the spec: an allocation rounds
  \<open>n\<close> up to 8 and fits when \<open>alloc_ptr + n \<le> alloc_limit\<close>; with a cleanup slot, both
  the bytes and one record taken from the top must fit; what does not fit is delegated
  to the fallbacks, which are in arena.cc (lines 137 to 150) and call back.
\<close>

definition HasSpace :: "SerialArena \<Rightarrow> nat \<Rightarrow> bool" where
  "HasSpace s n = (sa_ptr s + n \<le> sa_limit s)"

lemma AlignUpTo8_idem: "AlignUpTo8 (AlignUpTo8 n) = AlignUpTo8 n"
  by (simp add: AlignUpTo8_def)

lemma AllocateNewBlock_HasSpace:
  "AllocateNewBlock K w s n policy = Inr (w', s') \<Longrightarrow> HasSpace s' n"
  by (auto simp: AllocateNewBlock_def AllocateMemory_def block_size_for_def HasSpace_def
      Pointer_def new_Block_def Let_def split: sum.splits if_splits)

function AllocateAligned ::
    "arena_consts \<Rightarrow> world \<Rightarrow> SerialArena \<Rightarrow> nat \<Rightarrow> addr \<Rightarrow> error + (world \<times> SerialArena \<times> addr)"
  and AllocateAlignedFallback ::
    "arena_consts \<Rightarrow> world \<Rightarrow> SerialArena \<Rightarrow> nat \<Rightarrow> addr \<Rightarrow> error + (world \<times> SerialArena \<times> addr)"
where
  "AllocateAligned K w s n policy =
     (if HasSpace s (AlignUpTo8 n)
      then Inr (w, s\<lparr>sa_ptr := sa_ptr s + AlignUpTo8 n\<rparr>, sa_ptr s)
      else AllocateAlignedFallback K w s (AlignUpTo8 n) policy)"
| "AllocateAlignedFallback K w s n policy =
     (case AllocateNewBlock K w s n policy of
        Inl e \<Rightarrow> Inl e
      | Inr (w', s') \<Rightarrow> AllocateAligned K w' s' n policy)"
  by pat_completeness auto

termination
  apply (relation "measure (\<lambda>x. case x of
      Inl (K, w, s, n, p) \<Rightarrow> (if HasSpace s (AlignUpTo8 n) then 0 else 2)
    | Inr (K, w, s, n, p) \<Rightarrow> (if AlignUpTo8 n = n then 1 else 3))")
    apply (auto simp: AlignUpTo8_idem dest: AllocateNewBlock_HasSpace)
  done

text \<open>
  The pair returned by AllocateAlignedWithCleanup is the allocation and the address of
  the cleanup node taken from the top of the block.
\<close>

function AllocateAlignedWithCleanup ::
    "arena_consts \<Rightarrow> world \<Rightarrow> SerialArena \<Rightarrow> nat \<Rightarrow> addr
       \<Rightarrow> error + (world \<times> SerialArena \<times> addr \<times> addr)"
  and AllocateAlignedWithCleanupFallback ::
    "arena_consts \<Rightarrow> world \<Rightarrow> SerialArena \<Rightarrow> nat \<Rightarrow> addr
       \<Rightarrow> error + (world \<times> SerialArena \<times> addr \<times> addr)"
where
  "AllocateAlignedWithCleanup K w s n policy =
     (if HasSpace s (AlignUpTo8 n + kCleanupSize K)
      then Inr (w, s\<lparr>sa_ptr := sa_ptr s + AlignUpTo8 n,
                      sa_limit := sa_limit s - kCleanupSize K\<rparr>,
                sa_ptr s, sa_limit s - kCleanupSize K)
      else AllocateAlignedWithCleanupFallback K w s (AlignUpTo8 n) policy)"
| "AllocateAlignedWithCleanupFallback K w s n policy =
     (case AllocateNewBlock K w s (n + kCleanupSize K) policy of
        Inl e \<Rightarrow> Inl e
      | Inr (w', s') \<Rightarrow> AllocateAlignedWithCleanup K w' s' n policy)"
  by pat_completeness auto
termination
  apply (relation "measure (\<lambda>x. case x of
      Inl (K, w, s, n, p) \<Rightarrow> (if HasSpace s (AlignUpTo8 n + kCleanupSize K) then 0 else 2)
    | Inr (K, w, s, n, p) \<Rightarrow> (if AlignUpTo8 n = n then 1 else 3))")
    apply (auto simp: AlignUpTo8_idem dest: AllocateNewBlock_HasSpace)
  done

definition MaybeAllocateAligned :: "SerialArena \<Rightarrow> nat \<Rightarrow> (SerialArena \<times> addr) option" where
  "MaybeAllocateAligned s n =
     (if HasSpace s (AlignUpTo8 n)
      then Some (s\<lparr>sa_ptr := sa_ptr s + AlignUpTo8 n\<rparr>, sa_ptr s)
      else None)"

definition AddCleanup ::
  "arena_consts \<Rightarrow> world \<Rightarrow> SerialArena \<Rightarrow> addr \<Rightarrow> nat \<Rightarrow> addr \<Rightarrow> error + (world \<times> SerialArena)" where
  "AddCleanup K w s el fn policy =
     (case AllocateAlignedWithCleanup K w s 0 policy of
        Inl e \<Rightarrow> Inl e
      | Inr (w', s', p, slot) \<Rightarrow>
          Inr (w'\<lparr>nodes := (nodes w')(slot \<mapsto> \<lparr>elem = el, cleanup = fn\<rparr>)\<rparr>, s'))"

subsection \<open>SerialArena::Free and SerialArena::CleanupList\<close>

definition block_mem :: "Block \<Rightarrow> Memory" where
  "block_mem b = \<lparr>ptr = base b, msize = bsize b\<rparr>"

text \<open>
  Lines 125 to 135: the loop advances to the next block, deallocates the block it has
  left and stops at the block without successor, whose memory it returns.
\<close>

fun Free_loop :: "nat option \<Rightarrow> world \<times> nat \<Rightarrow> Memory \<Rightarrow> Block list \<Rightarrow> (world \<times> nat) \<times> Memory" where
  "Free_loop d st mem [] = (st, mem)"
| "Free_loop d st mem (b # bs) = Free_loop d (deallocator d st mem) (block_mem b) bs"

definition Free :: "nat option \<Rightarrow> world \<times> nat \<Rightarrow> SerialArena \<Rightarrow> (world \<times> nat) \<times> Memory" where
  "Free d st s = Free_loop d st (block_mem (sa_head s)) (sa_chain s)"

text \<open>
  Lines 182 to 197. \<open>limit - it\<close> is a difference of CleanupNode pointers: the distance in
  bytes divided by the size of a node, rounded towards zero. A node is called through
  what the memory at its address holds; memory that holds no node (never written, or
  given back) is a call through garbage. The size of a node is never 0 in C++, and the
  walk stops if the parameter says otherwise.
\<close>

definition node_diff :: "arena_consts \<Rightarrow> addr \<Rightarrow> addr \<Rightarrow> int" where
  "node_diff K p q =
     (let d = int p - int q in sgn d * (\<bar>d\<bar> div int (kCleanupSize K)))"

definition call_node :: "world \<Rightarrow> addr \<Rightarrow> event" where
  "call_node w it =
     (case nodes w it of
        Some nd \<Rightarrow> Cleanup (cleanup nd) (elem nd)
      | None \<Rightarrow> CleanupGarbage it)"

function run_nodes :: "arena_consts \<Rightarrow> world \<Rightarrow> addr \<Rightarrow> addr \<Rightarrow> world" where
  "run_nodes K w it limit =
     (if it < limit \<and> 0 < kCleanupSize K
      then run_nodes K (emit (call_node w it) w) (it + kCleanupSize K) limit
      else w)"
  by pat_completeness auto
termination
  by (relation "measure (\<lambda>(K, w, it, limit). limit - it)") auto

definition cleanup_block :: "arena_consts \<Rightarrow> world \<Rightarrow> Block \<Rightarrow> world" where
  "cleanup_block K w b =
     (let limit = Pointer b (mask8 (bsize b));
          it = start b;
          num = node_diff K limit it
      in if num > 0 then run_nodes K w it limit else w)"

definition CleanupList :: "arena_consts \<Rightarrow> world \<Rightarrow> SerialArena \<Rightarrow> world \<times> SerialArena" where
  "CleanupList K w s =
     (let b = (sa_head s)\<lparr>start := sa_limit s\<rparr>
      in (fold (\<lambda>blk w'. cleanup_block K w' blk) (b # sa_chain s) w, s\<lparr>sa_head := b\<rparr>))"

subsection \<open>ThreadSafeArena\<close>

text \<open>
  The list \<open>threads\<close> is the member \<open>threads_\<close> followed through \<open>next()\<close>, so its first
  element is the SerialArena pushed last. The word \<open>alloc_policy_\<close> is kept as its two
  parts: the bit kUserOwnedInitialBlock and the pointer to the policy. \<open>record_allocs\<close>
  is the bit kRecordAllocs of \<open>tag_and_id_\<close>. The lifecycle id, \<open>hint_\<close> and the thread
  cache serve only the lookup GetSerialArenaFast of arena_impl.h and are left out; every
  function takes the calling thread's identity \<open>&thread_cache()\<close> as \<open>me\<close>.
\<close>

record ThreadSafeArena =
  threads :: "SerialArena list"
  user_owned :: bool
  policy_ptr :: addr
  record_allocs :: bool

text \<open>Lines 264 to 282, without the lifecycle id.\<close>

definition Init :: "bool \<Rightarrow> ThreadSafeArena \<Rightarrow> ThreadSafeArena" where
  "Init rec a = a\<lparr>record_allocs := rec, threads := []\<rparr>"

definition SetInitialBlock ::
  "arena_consts \<Rightarrow> addr \<Rightarrow> Memory \<Rightarrow> ThreadSafeArena \<Rightarrow> error + ThreadSafeArena" where
  "SetInitialBlock K me mem a =
     (case New K mem me of
        Inl e \<Rightarrow> Inl e
      | Inr serial \<Rightarrow> Inr (a\<lparr>threads := [serial]\<rparr>))"

text \<open>Lines 220 to 229; the GOOGLE_DCHECK_EQ on the alignment is a debug assertion.\<close>

definition InitializeFrom ::
  "arena_consts \<Rightarrow> addr \<Rightarrow> addr \<Rightarrow> nat \<Rightarrow> ThreadSafeArena \<Rightarrow> error + ThreadSafeArena" where
  "InitializeFrom K me mem sz a =
     (if dchecks K \<and> mem mod 8 \<noteq> 0 then Inl FATAL
      else let a1 = Init False a
           in if mem \<noteq> 0 \<and> sz \<ge> kBlockHeaderSize K + kSerialArenaSize K
              then SetInitialBlock K me \<lparr>ptr = mem, msize = sz\<rparr> (a1\<lparr>user_owned := True\<rparr>)
              else Inr a1)"

text \<open>
  Lines 231 to 262. The policy is passed by value and copied into the first block at
  the address MaybeAllocateAligned returns.
\<close>

definition InitializeWithPolicy ::
  "arena_consts \<Rightarrow> world \<Rightarrow> addr \<Rightarrow> addr \<Rightarrow> nat \<Rightarrow> bool \<Rightarrow> AllocationPolicy \<Rightarrow> ThreadSafeArena
     \<Rightarrow> error + (world \<times> ThreadSafeArena)" where
  "InitializeWithPolicy K w me mem sz rec policy a =
     (if dchecks K \<and> mem mod 8 \<noteq> 0 then Inl FATAL
      else
        let a1 = Init rec a;
            kMinimumSize = kBlockHeaderSize K + kSerialArenaSize K + kAPSize K;
            r = (if mem \<noteq> 0 \<and> sz \<ge> kMinimumSize
                 then Inr (w, a1\<lparr>user_owned := True, policy_ptr := 0\<rparr>, \<lparr>ptr = mem, msize = sz\<rparr>)
                 else case AllocateMemory K w (Some policy) 0 kMinimumSize of
                        Inl e \<Rightarrow> Inl e
                      | Inr (w1, tmp) \<Rightarrow>
                          Inr (w1, a1\<lparr>user_owned := False, policy_ptr := 0\<rparr>, tmp))
        in case r of
             Inl e \<Rightarrow> Inl e
           | Inr (w1, a2, m) \<Rightarrow>
               (case SetInitialBlock K me m a2 of
                  Inl e \<Rightarrow> Inl e
                | Inr a3 \<Rightarrow>
                    (case threads a3 of
                       [] \<Rightarrow> Inl FATAL
                     | sa # rest \<Rightarrow>
                         (case MaybeAllocateAligned sa (kAPSize K) of
                            None \<Rightarrow> Inl FATAL
                          | Some (sa', p) \<Rightarrow>
                              Inr (w1\<lparr>policies := (policies w1)(p \<mapsto> policy)\<rparr>,
                                   a3\<lparr>threads := sa' # rest, policy_ptr := p\<rparr>)))))"

text \<open>
  Modelled from the spec: PerSerialArena of arena_impl.h is missing; by section 4.3 it
  visits every shard of the list, from \<open>threads_\<close> along \<open>next()\<close>. ThreadSafeArena's
  CleanupList (lines 430 to 432) and Free (lines 312 to 320) are its two uses.
\<close>

fun CleanupList_shards ::
  "arena_consts \<Rightarrow> world \<Rightarrow> SerialArena list \<Rightarrow> world \<times> SerialArena list" where
  "CleanupList_shards K w [] = (w, [])"
| "CleanupList_shards K w (s # ss) =
     (let r = CleanupList K w s; r2 = CleanupList_shards K (fst r) ss
      in (fst r2, snd r # snd r2))"

definition TSA_CleanupList ::
  "arena_consts \<Rightarrow> world \<Rightarrow> ThreadSafeArena \<Rightarrow> world \<times> ThreadSafeArena" where
  "TSA_CleanupList K w a =
     (let r = CleanupList_shards K w (threads a) in (fst r, a\<lparr>threads := snd r\<rparr>))"

fun Free_shards ::
  "nat option \<Rightarrow> world \<times> nat \<Rightarrow> Memory \<Rightarrow> SerialArena list \<Rightarrow> (world \<times> nat) \<times> Memory" where
  "Free_shards d st mem [] = (st, mem)"
| "Free_shards d st mem (s # ss) =
     (let st1 = (if ptr mem \<noteq> 0 then deallocator d st mem else st);
          r = Free d st1 s
      in Free_shards d (fst r) (snd r) ss)"

definition TSA_Free ::
  "world \<Rightarrow> ThreadSafeArena \<Rightarrow> nat \<Rightarrow> error + ((world \<times> nat) \<times> Memory)" where
  "TSA_Free w a space_allocated =
     (case GetDeallocator w (policy_ptr a) of
        Inl e \<Rightarrow> Inl e
      | Inr d \<Rightarrow> Inr (Free_shards d (w, space_allocated) \<lparr>ptr = 0, msize = 0\<rparr> (threads a)))"

text \<open>
  The last block, lines 303 to 307, 333 to 339 and 345 to 351: counted when the initial
  block is the user's, deallocated otherwise.
\<close>

definition free_last ::
  "ThreadSafeArena \<Rightarrow> world \<times> nat \<Rightarrow> Memory \<Rightarrow> error + (world \<times> nat)" where
  "free_last a st mem =
     (if user_owned a then Inr (fst st, snd st + msize mem)
      else case GetDeallocator (fst st) (policy_ptr a) of
             Inl e \<Rightarrow> Inl e
           | Inr d \<Rightarrow> Inr (deallocator d st mem))"

text \<open>The destructor, lines 291 to 310.\<close>

definition Destroy :: "arena_consts \<Rightarrow> world \<Rightarrow> ThreadSafeArena \<Rightarrow> error + world" where
  "Destroy K w a =
     (let c = TSA_CleanupList K w a; a1 = snd c
      in case TSA_Free (fst c) a1 0 of
           Inl e \<Rightarrow> Inl e
         | Inr (st, mem) \<Rightarrow>
             (case load_policy (fst st) (policy_ptr a1) of
                Inl e \<Rightarrow> Inl e
              | Inr p \<Rightarrow>
                  (let collector = (case p of None \<Rightarrow> None | Some pol \<Rightarrow> metrics_collector pol)
                   in case free_last a1 st mem of
                        Inl e \<Rightarrow> Inl e
                      | Inr (w3, space_allocated) \<Rightarrow>
                          Inr (case collector of
                                 None \<Rightarrow> w3
                               | Some col \<Rightarrow> emit (OnDestroy col space_allocated) w3))))"

text \<open>Reset, lines 322 to 355; the result carries the returned byte count.\<close>

definition Reset ::
  "arena_consts \<Rightarrow> world \<Rightarrow> addr \<Rightarrow> ThreadSafeArena \<Rightarrow> error + (world \<times> ThreadSafeArena \<times> nat)" where
  "Reset K w me a =
     (let c = TSA_CleanupList K w a; a1 = snd c
      in case TSA_Free (fst c) a1 0 of
           Inl e \<Rightarrow> Inl e
         | Inr (st, mem) \<Rightarrow>
             (case load_policy (fst st) (policy_ptr a1) of
                Inl e \<Rightarrow> Inl e
              | Inr (Some saved_policy) \<Rightarrow>
                  (case free_last a1 st mem of
                     Inl e \<Rightarrow> Inl e
                   | Inr (w3, space_allocated) \<Rightarrow>
                       (let mem3 = (if user_owned a1 then mem else \<lparr>ptr = 0, msize = 0\<rparr>);
                            w4 = (case metrics_collector saved_policy of
                                    None \<Rightarrow> w3
                                  | Some col \<Rightarrow> emit (OnReset col space_allocated) w3)
                        in case InitializeWithPolicy K w4 me (ptr mem3) (msize mem3)
                                  (record_allocs a1) saved_policy a1 of
                             Inl e \<Rightarrow> Inl e
                           | Inr (w5, a5) \<Rightarrow> Inr (w5, a5, space_allocated)))
              | Inr None \<Rightarrow>
                  (if user_owned a1
                   then (case InitializeFrom K me (ptr mem) (msize mem) a1 of
                           Inl e \<Rightarrow> Inl e
                         | Inr a5 \<Rightarrow> Inr (fst st, a5, snd st + msize mem))
                   else (case free_last a1 st mem of
                           Inl e \<Rightarrow> Inl e
                         | Inr (w3, space_allocated) \<Rightarrow>
                             Inr (w3, Init False a1, space_allocated)))))"

text \<open>
  GetSerialArenaFallback, lines 434 to 459, returns the SerialArena as its position in
  \<open>threads\<close>. In a sequential execution the compare-and-swap succeeds at once.
\<close>

fun find_owner :: "addr \<Rightarrow> SerialArena list \<Rightarrow> nat option" where
  "find_owner me [] = None"
| "find_owner me (s # ss) =
     (if sa_owner s = me then Some 0
      else case find_owner me ss of None \<Rightarrow> None | Some i \<Rightarrow> Some (Suc i))"

definition GetSerialArenaFallback ::
  "arena_consts \<Rightarrow> world \<Rightarrow> addr \<Rightarrow> ThreadSafeArena \<Rightarrow> error + (world \<times> ThreadSafeArena \<times> nat)" where
  "GetSerialArenaFallback K w me a =
     (case find_owner me (threads a) of
        Some i \<Rightarrow> Inr (w, a, i)
      | None \<Rightarrow>
          (case load_policy w (policy_ptr a) of
             Inl e \<Rightarrow> Inl e
           | Inr pol \<Rightarrow>
               (case AllocateMemory K w pol 0 (kSerialArenaSize K) of
                  Inl e \<Rightarrow> Inl e
                | Inr (w1, mem) \<Rightarrow>
                    (case New K mem me of
                       Inl e \<Rightarrow> Inl e
                     | Inr serial \<Rightarrow> Inr (w1, a\<lparr>threads := serial # threads a\<rparr>, 0)))))"

text \<open>AddCleanupFallback, lines 406 to 410.\<close>

definition AddCleanupFallback ::
  "arena_consts \<Rightarrow> world \<Rightarrow> addr \<Rightarrow> addr \<Rightarrow> nat \<Rightarrow> ThreadSafeArena \<Rightarrow> error + (world \<times> ThreadSafeArena)" where
  "AddCleanupFallback K w me el fn a =
     (case GetSerialArenaFallback K w me a of
        Inl e \<Rightarrow> Inl e
      | Inr (w1, a1, i) \<Rightarrow>
          (case AddCleanup K w1 (threads a1 ! i) el fn (policy_ptr a1) of
             Inl e \<Rightarrow> Inl e
           | Inr (w2, s2) \<Rightarrow> Inr (w2, a1\<lparr>threads := (threads a1)[i := s2]\<rparr>)))"

text \<open>
  AllocateAlignedFallback, lines 377 to 389, for an arena that does not record
  allocations: the branch under ShouldRecordAlloc needs RecordAlloc and
  GetSerialArenaFast of arena_impl.h and is not modelled.
\<close>

definition TSA_AllocateAlignedFallback ::
  "arena_consts \<Rightarrow> world \<Rightarrow> addr \<Rightarrow> nat \<Rightarrow> ThreadSafeArena \<Rightarrow> error + (world \<times> ThreadSafeArena \<times> addr)" where
  "TSA_AllocateAlignedFallback K w me n a =
     (if record_allocs a then Inl NotModelled
      else case GetSerialArenaFallback K w me a of
             Inl e \<Rightarrow> Inl e
           | Inr (w1, a1, i) \<Rightarrow>
               (case AllocateAligned K w1 (threads a1 ! i) n (policy_ptr a1) of
                  Inl e \<Rightarrow> Inl e
                | Inr (w2, s2, p) \<Rightarrow> Inr (w2, a1\<lparr>threads := (threads a1)[i := s2]\<rparr>, p)))"

section \<open>Concrete parameters for the closed theorems\<close>

text \<open>
  An LP64 build without debug assertions: a block header of three words, a SerialArena of
  seven, a cleanup node of two, a policy of five, and the default policy sizes 256 and
  8192. The allocators of \<open>world0\<close> hand out the addresses 100000, 200000 and so on.
\<close>

definition K64 :: arena_consts where
  "K64 = \<lparr>kBlockHeaderSize = 24, kSerialArenaSize = 56, kCleanupSize = 16, kAPSize = 40,
          kDefaultStartBlockSize = 256, kDefaultMaxBlockSize = 8192, dchecks = False\<rparr>"

definition world0 :: world where
  "world0 = \<lparr>events = [], nallocs = 0, fresh = (\<lambda>k. 100000 * (k + 1)),
             nodes = (\<lambda>a. None), policies = (\<lambda>a. None)\<rparr>"

text \<open>
  Modelled from the spec: the member initialisers of ThreadSafeArena are in arena_impl.h;
  by section 4.3 a Fresh region has no shards and no blocks, and no policy is attached.
\<close>

definition fresh_arena :: ThreadSafeArena where
  "fresh_arena = \<lparr>threads = [], user_owned = False, policy_ptr = 0, record_allocs = False\<rparr>"

section \<open>Growth of a shard\<close>




lemma load_policy_emit [simp]: "load_policy (emit e w) p = load_policy w p"
  by (simp add: load_policy_def emit_def)









lemma K64_simps [simp]:
  "kBlockHeaderSize K64 = 24" "kSerialArenaSize K64 = 56" "kCleanupSize K64 = 16"
  "kAPSize K64 = 40" "kDefaultStartBlockSize K64 = 256" "kDefaultMaxBlockSize K64 = 8192"
  "dchecks K64 = False"
  by (simp_all add: K64_def)

lemma world0_simps [simp]:
  "events world0 = []" "nallocs world0 = 0" "fresh world0 k = 100000 * (k + 1)"
  "nodes world0 x = None" "policies world0 x = None"
  by (simp_all add: world0_def)

lemma fresh_arena_simps [simp]:
  "threads fresh_arena = []" "user_owned fresh_arena = False" "policy_ptr fresh_arena = 0"
  "record_allocs fresh_arena = False"
  by (simp_all add: fresh_arena_def)




lemma load_policy_null [simp]: "load_policy w 0 = Inr None"
  by (simp add: load_policy_def)



section \<open>One shard for each thread\<close>







section \<open>The boundary of a block added by growth\<close>

text \<open>
  A region is given a user-owned initial block of 150 bytes at address 4096; its thread
  allocates 64 bytes, which fill the block, and then 8 bytes, which make the shard grow
  by a block of 300 bytes.
\<close>

definition odd_block_run :: "error + (world \<times> ThreadSafeArena \<times> addr)" where
  "odd_block_run =
     (case InitializeFrom K64 7 4096 150 fresh_arena of
        Inl e \<Rightarrow> Inl e
      | Inr a \<Rightarrow>
          (case TSA_AllocateAlignedFallback K64 world0 7 64 a of
             Inl e \<Rightarrow> Inl e
           | Inr (w, a1, p) \<Rightarrow> TSA_AllocateAlignedFallback K64 w 7 8 a1))"

text \<open>For each shard: its head block, its \<open>limit_\<close> and the aligned high boundary of the head.\<close>

definition head_limits ::
  "error + (world \<times> ThreadSafeArena \<times> addr) \<Rightarrow> (Block \<times> addr \<times> addr) list" where
  "head_limits r =
     (case r of
        Inl e \<Rightarrow> []
      | Inr (w, a, p) \<Rightarrow>
          map (\<lambda>s. (sa_head s, sa_limit s, Pointer (sa_head s) (mask8 (bsize (sa_head s)))))
            (threads a))"

text \<open>
  C7 at this input: the block added by growth has 300 bytes at address 100000, and
  AllocateNewBlock leaves \<open>limit_\<close> at 100300, which is neither the aligned boundary 100296
  nor a multiple of 8.
\<close>

theorem C7_growth_limit_unaligned:
  "head_limits odd_block_run = [(\<lparr>base = 100000, bsize = 300, start = 0\<rparr>, 100300, 100296)] \<and>
   (100300 :: nat) mod 8 = 4"
  by (simp add: odd_block_run_def head_limits_def InitializeFrom_def Init_def
      SetInitialBlock_def TSA_AllocateAlignedFallback_def
      GetSerialArenaFallback_def AllocateMemory_def block_size_for_def default_policy_def
      SIZE_MAX_def New_def SerialArena_ctor_def new_Block_def Pointer_def mask8_def
      HasSpace_def AlignUpTo8_def AllocateNewBlock_def emit_def Let_def)

section \<open>A cleanup that is never run\<close>







section \<open>The initial block of InitializeFrom\<close>

text \<open>
  C6, as stated, fails for misaligned memory: without the debug assertions
  InitializeFrom installs a block of 2048 bytes at the address 4100 as the user-owned
  initial block, and with them it is fatal; in neither build is the block ignored.
\<close>

theorem C6_counterexample:
  "InitializeFrom K64 7 4100 2048 fresh_arena =
     Inr \<lparr>threads = [\<lparr>sa_owner = 7, sa_head = \<lparr>base = 4100, bsize = 2048, start = 0\<rparr>,
                       sa_chain = [], sa_space_used = 0, sa_space_allocated = 2048,
                       sa_ptr = 4180, sa_limit = 6148\<rparr>],
           user_owned = True, policy_ptr = 0, record_allocs = False\<rparr> \<and>
   InitializeFrom (K64\<lparr>dchecks := True\<rparr>) 7 4100 2048 fresh_arena = Inl FATAL"
  by (simp add: InitializeFrom_def Init_def SetInitialBlock_def New_def SerialArena_ctor_def
      new_Block_def Pointer_def mask8_def fresh_arena_def K64_def)

text \<open>
  C6, amended. Where the alignment assertion does not fire (the memory is 8-byte aligned
  or the assertions are compiled out), InitializeFrom succeeds, and it installs the
  memory as the user-owned initial block of a shard owned by the caller exactly when the
  memory is non-null and holds a block header and a SerialArena; otherwise the region has
  no shard and its ownership flag is unchanged. Misaligned memory is fatal where the
  assertions are compiled in.
\<close>

theorem C6_InitializeFrom_installs:
  "(dchecks K \<and> mem mod 8 \<noteq> 0 \<longrightarrow> InitializeFrom K me mem sz a = Inl FATAL) \<and>
   (\<not> (dchecks K \<and> mem mod 8 \<noteq> 0) \<longrightarrow>
      (\<exists>a'. InitializeFrom K me mem sz a = Inr a' \<and>
         (if mem \<noteq> 0 \<and> kBlockHeaderSize K + kSerialArenaSize K \<le> sz
          then user_owned a' \<and>
               (\<exists>s. threads a' = [s] \<and> sa_owner s = me \<and> sa_chain s = [] \<and>
                    base (sa_head s) = mem \<and> bsize (sa_head s) = sz)
          else threads a' = [] \<and> user_owned a' = user_owned a)))"
proof (intro conjI impI)
  assume "dchecks K \<and> mem mod 8 \<noteq> 0"
  then show "InitializeFrom K me mem sz a = Inl FATAL"
    by (simp add: InitializeFrom_def)
next
  assume n: "\<not> (dchecks K \<and> mem mod 8 \<noteq> 0)"
  show "\<exists>a'. InitializeFrom K me mem sz a = Inr a' \<and>
         (if mem \<noteq> 0 \<and> kBlockHeaderSize K + kSerialArenaSize K \<le> sz
          then user_owned a' \<and>
               (\<exists>s. threads a' = [s] \<and> sa_owner s = me \<and> sa_chain s = [] \<and>
                    base (sa_head s) = mem \<and> bsize (sa_head s) = sz)
          else threads a' = [] \<and> user_owned a' = user_owned a)"
  proof (cases "mem \<noteq> 0 \<and> kBlockHeaderSize K + kSerialArenaSize K \<le> sz")
    case True
    then have "InitializeFrom K me mem sz a =
        Inr (a\<lparr>record_allocs := False, user_owned := True,
               threads := [SerialArena_ctor K (new_Block mem sz) me]\<rparr>)"
      using n by (auto simp: InitializeFrom_def Init_def SetInitialBlock_def New_def)
    then show ?thesis
      using True by (simp add: SerialArena_ctor_def new_Block_def)
  next
    case False
    then have "InitializeFrom K me mem sz a = Inr (a\<lparr>record_allocs := False, threads := []\<rparr>)"
      using n by (auto simp: InitializeFrom_def Init_def)
    then show ?thesis
      using False by auto
  qed
qed

theorem C6_InitializeFrom_installs_witness:
  "InitializeFrom (K64\<lparr>dchecks := True\<rparr>) 7 4100 2048 fresh_arena = Inl FATAL \<and>
   (\<exists>a'. InitializeFrom K64 7 4096 2048 fresh_arena = Inr a' \<and> user_owned a' \<and>
      (\<exists>s. threads a' = [s] \<and> sa_owner s = 7 \<and> sa_chain s = [] \<and>
           base (sa_head s) = 4096 \<and> bsize (sa_head s) = 2048)) \<and>
   (\<exists>a'. InitializeFrom K64 7 4096 64 fresh_arena = Inr a' \<and> threads a' = [] \<and>
      \<not> user_owned a')"
  using C6_InitializeFrom_installs [of "K64\<lparr>dchecks := True\<rparr>" 4100 7 2048 fresh_arena]
    C6_InitializeFrom_installs [of K64 4096 7 2048 fresh_arena]
    C6_InitializeFrom_installs [of K64 4096 7 64 fresh_arena]
  by simp


section \<open>What Reset and the destructor give back\<close>

text \<open>
  The memory that ThreadSafeArena::Free hands to the deallocator, in order, and the memory
  it returns: every block but the last of each shard, and the last block of a shard when
  the next shard is visited, unless its address is null.
\<close>

definition dealloc_event :: "nat option \<Rightarrow> Memory \<Rightarrow> event" where
  "dealloc_event d mem =
     (case d of
        Some f \<Rightarrow> BlockDealloc f (ptr mem) (msize mem)
      | None \<Rightarrow> OperatorDelete (ptr mem) (msize mem))"

definition blocks_of :: "SerialArena \<Rightarrow> Block list" where
  "blocks_of s = sa_head s # sa_chain s"

fun freed_shards :: "Memory \<Rightarrow> SerialArena list \<Rightarrow> Memory list" where
  "freed_shards mem [] = []"
| "freed_shards mem (s # ss) =
     (if ptr mem \<noteq> 0 then [mem] else []) @ butlast (map block_mem (blocks_of s))
       @ freed_shards (block_mem (last (blocks_of s))) ss"

fun last_mem :: "Memory \<Rightarrow> SerialArena list \<Rightarrow> Memory" where
  "last_mem mem [] = mem"
| "last_mem mem (s # ss) = last_mem (block_mem (last (blocks_of s))) ss"

definition dealloc_all :: "nat option \<Rightarrow> world \<times> nat \<Rightarrow> Memory list \<Rightarrow> world \<times> nat" where
  "dealloc_all d st mems = fold (\<lambda>m st'. deallocator d st' m) mems st"

lemma dealloc_all_Nil [simp]: "dealloc_all d st [] = st"
  by (simp add: dealloc_all_def)

lemma dealloc_all_Cons [simp]:
  "dealloc_all d st (m # ms) = dealloc_all d (deallocator d st m) ms"
  by (simp add: dealloc_all_def)

lemma dealloc_all_append [simp]:
  "dealloc_all d st (ms @ ms') = dealloc_all d (dealloc_all d st ms) ms'"
  by (simp add: dealloc_all_def)

lemma Free_loop_eq:
  "Free_loop d st mem bs =
     (dealloc_all d st (butlast (mem # map block_mem bs)), last (mem # map block_mem bs))"
  by (induction bs arbitrary: st mem) auto

lemma Free_eq:
  "Free d st s =
     (dealloc_all d st (butlast (map block_mem (blocks_of s))),
      block_mem (last (blocks_of s)))"
  by (simp add: Free_def Free_loop_eq blocks_of_def last_map)

lemma Free_shards_eq:
  "Free_shards d st mem ss = (dealloc_all d st (freed_shards mem ss), last_mem mem ss)"
  by (induction ss arbitrary: st mem) (simp_all add: Free_eq Let_def)

lemma deallocator_events:
  "events (fst (deallocator d st m)) = events (fst st) @ [dealloc_event d m]"
  by (simp add: deallocator_def release_def emit_def dealloc_event_def Let_def split: option.splits)

lemma deallocator_count: "snd (deallocator d st m) = snd st + msize m"
  by (simp add: deallocator_def Let_def)

lemma deallocator_policies:
  "policies (fst (deallocator d st m)) x = (if inside m x then None else policies (fst st) x)"
  by (simp add: deallocator_def release_def emit_def Let_def)

lemma deallocator_rest:
  "nallocs (fst (deallocator d st m)) = nallocs (fst st)"
  "fresh (fst (deallocator d st m)) = fresh (fst st)"
  by (simp_all add: deallocator_def release_def emit_def Let_def)

lemma dealloc_all_events:
  "events (fst (dealloc_all d st ms)) = events (fst st) @ map (dealloc_event d) ms"
  by (induction ms arbitrary: st) (simp_all add: deallocator_events)

lemma dealloc_all_count: "snd (dealloc_all d st ms) = snd st + sum_list (map msize ms)"
  by (induction ms arbitrary: st) (simp_all add: deallocator_count)

lemma dealloc_all_policies:
  "policies (fst (dealloc_all d st ms)) x =
     (if \<exists>m \<in> set ms. inside m x then None else policies (fst st) x)"
  by (induction ms arbitrary: st) (auto simp: deallocator_policies)

lemma dealloc_all_rest:
  "nallocs (fst (dealloc_all d st ms)) = nallocs (fst st)"
  "fresh (fst (dealloc_all d st ms)) = fresh (fst st)"
  by (induction ms arbitrary: st) (simp_all add: deallocator_rest)

text \<open>The cleanup pass only appends calls of cleanups to the trace.\<close>

fun is_cleanup :: "event \<Rightarrow> bool" where
  "is_cleanup (Cleanup f x) = True"
| "is_cleanup (CleanupGarbage x) = True"
| "is_cleanup e = False"

fun is_dealloc :: "event \<Rightarrow> bool" where
  "is_dealloc (OperatorDelete p n) = True"
| "is_dealloc (BlockDealloc f p n) = True"
| "is_dealloc e = False"

definition cleanup_step :: "world \<Rightarrow> world \<Rightarrow> bool" where
  "cleanup_step w w' =
     (\<exists>cs. w' = w\<lparr>events := events w @ cs\<rparr> \<and> list_all is_cleanup cs)"

lemma cleanup_step_refl: "cleanup_step w w"
  unfolding cleanup_step_def by (rule exI [of _ "[]"]) simp

lemma cleanup_step_trans:
  assumes "cleanup_step w w1" "cleanup_step w1 w2"
  shows "cleanup_step w w2"
proof -
  obtain cs where 1: "w1 = w\<lparr>events := events w @ cs\<rparr>" "list_all is_cleanup cs"
    using assms(1) unfolding cleanup_step_def by blast
  obtain ds where 2: "w2 = w1\<lparr>events := events w1 @ ds\<rparr>" "list_all is_cleanup ds"
    using assms(2) unfolding cleanup_step_def by blast
  have "w2 = w\<lparr>events := events w @ (cs @ ds)\<rparr>" "list_all is_cleanup (cs @ ds)"
    using 1 2 by simp_all
  then show ?thesis
    unfolding cleanup_step_def by blast
qed

lemma call_node_is_cleanup: "is_cleanup (call_node w it)"
  by (simp add: call_node_def split: option.splits)

declare run_nodes.simps [simp del]

lemma emit_step: "is_cleanup e \<Longrightarrow> cleanup_step w (emit e w)"
  unfolding cleanup_step_def emit_def by (rule exI [of _ "[e]"]) simp

lemma run_nodes_step: "cleanup_step w (run_nodes K w it limit)"
proof (induction K w it limit rule: run_nodes.induct)
  case (1 K w it limit)
  show ?case
  proof (cases "it < limit \<and> 0 < kCleanupSize K")
    case True
    have eq: "run_nodes K w it limit =
        run_nodes K (emit (call_node w it) w) (it + kCleanupSize K) limit"
      using True by (subst run_nodes.simps) simp
    have "cleanup_step (emit (call_node w it) w)
        (run_nodes K (emit (call_node w it) w) (it + kCleanupSize K) limit)"
      using "1.IH" True by simp
    then show ?thesis
      unfolding eq
      by (rule cleanup_step_trans [OF emit_step [OF call_node_is_cleanup]])
  next
    case False
    then have "run_nodes K w it limit = w"
      by (subst run_nodes.simps) (simp only: if_False)
    then show ?thesis by (simp add: cleanup_step_refl)
  qed
qed

lemma cleanup_block_step: "cleanup_step w (cleanup_block K w b)"
  by (simp add: cleanup_block_def Let_def run_nodes_step cleanup_step_refl)

lemma fold_cleanup_block_step:
  "cleanup_step w (fold (\<lambda>blk w'. cleanup_block K w' blk) bs w)"
proof (induction bs arbitrary: w)
  case Nil
  show ?case by (simp add: cleanup_step_refl)
next
  case (Cons b bs)
  show ?case
    using cleanup_step_trans [OF cleanup_block_step Cons.IH] by simp
qed

lemma CleanupList_step: "cleanup_step w (fst (CleanupList K w s))"
  using fold_cleanup_block_step [of w K "(sa_head s)\<lparr>start := sa_limit s\<rparr> # sa_chain s"]
  by (simp add: CleanupList_def Let_def)

definition synced :: "SerialArena \<Rightarrow> SerialArena" where
  "synced s = s\<lparr>sa_head := (sa_head s)\<lparr>start := sa_limit s\<rparr>\<rparr>"

lemma CleanupList_snd: "snd (CleanupList K w s) = synced s"
  by (simp add: CleanupList_def Let_def synced_def)

lemma CleanupList_shards_step: "cleanup_step w (fst (CleanupList_shards K w ss))"
proof (induction ss arbitrary: w)
  case Nil
  show ?case by (simp add: cleanup_step_refl)
next
  case (Cons s ss)
  show ?case
    using cleanup_step_trans [OF CleanupList_step Cons.IH] by (simp add: Let_def)
qed

lemma CleanupList_shards_snd: "snd (CleanupList_shards K w ss) = map synced ss"
  by (induction ss arbitrary: w) (simp_all add: Let_def CleanupList_snd)

lemma TSA_CleanupList_step: "cleanup_step w (fst (TSA_CleanupList K w a))"
  by (simp add: TSA_CleanupList_def Let_def CleanupList_shards_step)

lemma TSA_CleanupList_snd:
  "snd (TSA_CleanupList K w a) = a\<lparr>threads := map synced (threads a)\<rparr>"
  by (simp add: TSA_CleanupList_def Let_def CleanupList_shards_snd)












text \<open>The steps of a destructor and of a Reset that succeed.\<close>

definition notify_destroy :: "AllocationPolicy option \<Rightarrow> nat \<Rightarrow> world \<Rightarrow> world" where
  "notify_destroy po n w =
     (case (case po of None \<Rightarrow> None | Some pol \<Rightarrow> metrics_collector pol) of
        None \<Rightarrow> w
      | Some col \<Rightarrow> emit (OnDestroy col n) w)"

definition notify_reset :: "AllocationPolicy \<Rightarrow> nat \<Rightarrow> world \<Rightarrow> world" where
  "notify_reset pol n w =
     (case metrics_collector pol of None \<Rightarrow> w | Some col \<Rightarrow> emit (OnReset col n) w)"

lemma Destroy_InrE:
  assumes "Destroy K w a = Inr w'"
  obtains st mem po w3 n where
    "TSA_Free (fst (TSA_CleanupList K w a)) (snd (TSA_CleanupList K w a)) 0 = Inr (st, mem)"
    "load_policy (fst st) (policy_ptr a) = Inr po"
    "free_last (snd (TSA_CleanupList K w a)) st mem = Inr (w3, n)"
    "w' = notify_destroy po n w3"
proof -
  let ?c = "TSA_CleanupList K w a"
  have pp: "policy_ptr (snd ?c) = policy_ptr a"
    by (simp add: TSA_CleanupList_snd)
  obtain st mem where f: "TSA_Free (fst ?c) (snd ?c) 0 = Inr (st, mem)"
    using assms by (cases "TSA_Free (fst ?c) (snd ?c) 0") (auto simp: Destroy_def Let_def)
  obtain po where p: "load_policy (fst st) (policy_ptr a) = Inr po"
    using assms f pp
    by (cases "load_policy (fst st) (policy_ptr a)") (auto simp: Destroy_def Let_def)
  obtain w3 n where l: "free_last (snd ?c) st mem = Inr (w3, n)"
    using assms f p pp
    by (cases "free_last (snd ?c) st mem") (auto simp: Destroy_def Let_def)
  have "w' = notify_destroy po n w3"
    using assms f p l pp by (simp add: Destroy_def Let_def notify_destroy_def)
  then show ?thesis
    using that f p l by blast
qed

lemma Reset_InrE:
  assumes "Reset K w me a = Inr (w', a', n)"
  obtains st mem po where
    "TSA_Free (fst (TSA_CleanupList K w a)) (snd (TSA_CleanupList K w a)) 0 = Inr (st, mem)"
    "load_policy (fst st) (policy_ptr a) = Inr po"
proof -
  let ?c = "TSA_CleanupList K w a"
  have pp: "policy_ptr (snd ?c) = policy_ptr a"
    by (simp add: TSA_CleanupList_snd)
  obtain st mem where f: "TSA_Free (fst ?c) (snd ?c) 0 = Inr (st, mem)"
    using assms by (cases "TSA_Free (fst ?c) (snd ?c) 0") (auto simp: Reset_def Let_def)
  obtain po where p: "load_policy (fst st) (policy_ptr a) = Inr po"
    using assms f pp
    by (cases "load_policy (fst st) (policy_ptr a)") (auto simp: Reset_def Let_def)
  show ?thesis
    using that f p by blast
qed

lemma Reset_policyE:
  assumes "Reset K w me a = Inr (w', a', n)"
    and "TSA_Free (fst (TSA_CleanupList K w a)) (snd (TSA_CleanupList K w a)) 0 = Inr (st, mem)"
    and "load_policy (fst st) (policy_ptr a) = Inr (Some pol)"
  obtains w3 where
    "free_last (snd (TSA_CleanupList K w a)) st mem = Inr (w3, n)"
    "InitializeWithPolicy K (notify_reset pol n w3) me
       (ptr (if user_owned a then mem else \<lparr>ptr = 0, msize = 0\<rparr>))
       (msize (if user_owned a then mem else \<lparr>ptr = 0, msize = 0\<rparr>))
       (record_allocs a) pol (snd (TSA_CleanupList K w a)) = Inr (w', a')"
proof -
  let ?c = "TSA_CleanupList K w a"
  have pp: "policy_ptr (snd ?c) = policy_ptr a" "user_owned (snd ?c) = user_owned a"
    "record_allocs (snd ?c) = record_allocs a"
    by (simp_all add: TSA_CleanupList_snd)
  obtain w3 m where l: "free_last (snd ?c) st mem = Inr (w3, m)"
    using assms pp
    by (cases "free_last (snd ?c) st mem") (auto simp: Reset_def Let_def)
  let ?i = "InitializeWithPolicy K (notify_reset pol m w3) me
       (ptr (if user_owned a then mem else \<lparr>ptr = 0, msize = 0\<rparr>))
       (msize (if user_owned a then mem else \<lparr>ptr = 0, msize = 0\<rparr>))
       (record_allocs a) pol (snd ?c)"
  have r: "Reset K w me a = (case ?i of Inl e \<Rightarrow> Inl e | Inr (w5, a5) \<Rightarrow> Inr (w5, a5, m))"
    using assms(2,3) l pp by (simp add: Reset_def Let_def notify_reset_def)
  have "m = n \<and> ?i = Inr (w', a')"
    using assms(1) unfolding r by (cases ?i) auto
  then show ?thesis
    using that l by blast
qed

lemma Reset_no_policy:
  assumes "Reset K w me a = Inr (w', a', n)"
    and "TSA_Free (fst (TSA_CleanupList K w a)) (snd (TSA_CleanupList K w a)) 0 = Inr (st, mem)"
    and "load_policy (fst st) (policy_ptr a) = Inr None"
  shows "if user_owned a
         then InitializeFrom K me (ptr mem) (msize mem) (snd (TSA_CleanupList K w a)) = Inr a' \<and>
              w' = fst st \<and> n = snd st + msize mem
         else free_last (snd (TSA_CleanupList K w a)) st mem = Inr (w', n) \<and>
              a' = Init False (snd (TSA_CleanupList K w a))"
proof -
  let ?c = "TSA_CleanupList K w a"
  have pp: "policy_ptr (snd ?c) = policy_ptr a" "user_owned (snd ?c) = user_owned a"
    by (simp_all add: TSA_CleanupList_snd)
  show ?thesis
  proof (cases "user_owned a")
    case True
    then show ?thesis
      using assms pp
      by (cases "InitializeFrom K me (ptr mem) (msize mem) (snd ?c)")
        (auto simp: Reset_def Let_def)
  next
    case False
    then show ?thesis
      using assms pp
      by (cases "free_last (snd ?c) st mem") (auto simp: Reset_def Let_def)
  qed
qed











section \<open>A region with a policy, a user-owned initial block and two shards\<close>

text \<open>
  The region is constructed by thread 7 with a policy (sizes 256 and 4096, allocation
  hook 1, deallocation hook 2, metrics collector 3) on a user-owned block of 2048 bytes
  at address 4096. Thread 7 registers a cleanup; thread 8 allocates 1000 bytes and
  registers two cleanups. \<open>policy_world\<close> and \<open>policy_arena\<close> are the state this run
  reaches.
\<close>

definition pol3 :: AllocationPolicy where
  "pol3 = \<lparr>start_block_size = 256, max_block_size = 4096, block_alloc = Some 1,
           block_dealloc = Some 2, metrics_collector = Some 3\<rparr>"

definition policy_run :: "error + (world \<times> ThreadSafeArena)" where
  "policy_run =
     (case InitializeWithPolicy K64 world0 7 4096 2048 False pol3 fresh_arena of
        Inl e \<Rightarrow> Inl e
      | Inr (w1, a1) \<Rightarrow>
     (case AddCleanupFallback K64 w1 7 5000 1 a1 of
        Inl e \<Rightarrow> Inl e
      | Inr (w2, a2) \<Rightarrow>
     (case TSA_AllocateAlignedFallback K64 w2 8 1000 a2 of
        Inl e \<Rightarrow> Inl e
      | Inr (w3, a3, p) \<Rightarrow>
     (case AddCleanupFallback K64 w3 8 5002 3 a3 of
        Inl e \<Rightarrow> Inl e
      | Inr (w4, a4) \<Rightarrow> AddCleanupFallback K64 w4 8 5003 4 a4))))"

definition policy_world :: world where
  "policy_world =
     \<lparr>events = [BlockAlloc 1 256 100000, BlockAlloc 1 1024 200000, BlockAlloc 1 2048 300000],
      nallocs = 3, fresh = (\<lambda>k. 100000 * (k + 1)),
      nodes = (\<lambda>a. None)(6128 \<mapsto> \<lparr>elem = 5000, cleanup = 1\<rparr>,
                302032 \<mapsto> \<lparr>elem = 5002, cleanup = 3\<rparr>,
                302016 \<mapsto> \<lparr>elem = 5003, cleanup = 4\<rparr>),
      policies = (\<lambda>a. None)(4176 \<mapsto> pol3)\<rparr>"

definition policy_arena :: ThreadSafeArena where
  "policy_arena =
     \<lparr>threads =
        [\<lparr>sa_owner = 8, sa_head = \<lparr>base = 300000, bsize = 2048, start = 0\<rparr>,
           sa_chain = [\<lparr>base = 200000, bsize = 1024, start = 201024\<rparr>,
                       \<lparr>base = 100000, bsize = 256, start = 100256\<rparr>],
           sa_space_used = 1056, sa_space_allocated = 3328,
           sa_ptr = 300024, sa_limit = 302016\<rparr>,
         \<lparr>sa_owner = 7, sa_head = \<lparr>base = 4096, bsize = 2048, start = 0\<rparr>,
           sa_chain = [], sa_space_used = 0, sa_space_allocated = 2048,
           sa_ptr = 4216, sa_limit = 6128\<rparr>],
      user_owned = True, policy_ptr = 4176, record_allocs = False\<rparr>"

lemma policy_run_value: "policy_run = Inr (policy_world, policy_arena)"
  by (simp add: policy_run_def policy_world_def policy_arena_def pol3_def
      InitializeWithPolicy_def MaybeAllocateAligned_def Init_def
      SetInitialBlock_def TSA_AllocateAlignedFallback_def AddCleanupFallback_def AddCleanup_def
      GetSerialArenaFallback_def AllocateMemory_def block_size_for_def load_policy_def
      SIZE_MAX_def New_def SerialArena_ctor_def new_Block_def Pointer_def mask8_def
      HasSpace_def AlignUpTo8_def AllocateNewBlock_def emit_def Let_def world0_def
      fresh_arena_def)

lemma policy_Destroy_value:
  "\<exists>w'. Destroy K64 policy_world policy_arena = Inr w' \<and>
     events w' = events policy_world @
       [Cleanup 4 5003, Cleanup 3 5002, Cleanup 1 5000, BlockDealloc 2 300000 2048,
        BlockDealloc 2 200000 1024, BlockDealloc 2 100000 256, OnDestroy 3 5376]"
  by (simp add: policy_world_def policy_arena_def pol3_def Destroy_def
      TSA_CleanupList_def CleanupList_def cleanup_block_def node_diff_def Pointer_def mask8_def
      run_nodes.simps call_node_def load_policy_def
      TSA_Free_def GetDeallocator_def Free_def block_mem_def deallocator_def free_last_def
      release_def inside_def emit_def Let_def)

lemma policy_Reset_value:
  "\<exists>w'. Reset K64 policy_world 7 policy_arena =
       Inr (w',
            \<lparr>threads = [\<lparr>sa_owner = 7, sa_head = \<lparr>base = 4096, bsize = 2048, start = 0\<rparr>,
                          sa_chain = [], sa_space_used = 0, sa_space_allocated = 2048,
                          sa_ptr = 4216, sa_limit = 6144\<rparr>],
              user_owned = True, policy_ptr = 4176, record_allocs = False\<rparr>,
            5376) \<and>
     policies w' 4176 = Some pol3 \<and>
     events w' = events policy_world @
       [Cleanup 4 5003, Cleanup 3 5002, Cleanup 1 5000, BlockDealloc 2 300000 2048,
        BlockDealloc 2 200000 1024, BlockDealloc 2 100000 256, OnReset 3 5376]"
  by (simp add: policy_world_def policy_arena_def pol3_def Reset_def
      TSA_CleanupList_def CleanupList_def cleanup_block_def node_diff_def Pointer_def mask8_def
      run_nodes.simps call_node_def load_policy_def
      TSA_Free_def GetDeallocator_def Free_def block_mem_def deallocator_def free_last_def
      release_def inside_def emit_def Let_def
      InitializeWithPolicy_def MaybeAllocateAligned_def Init_def SetInitialBlock_def
      New_def SerialArena_ctor_def new_Block_def HasSpace_def AlignUpTo8_def)


section \<open>Cleanups come before deallocations\<close>




section \<open>The byte total of Reset and of the destructor\<close>

definition total_size :: "ThreadSafeArena \<Rightarrow> nat" where
  "total_size a = sum_list (map bsize (concat (map blocks_of (threads a))))"

text \<open>The block that ThreadSafeArena::Free leaves to its caller; null for a region without shards.\<close>

definition null_mem :: Memory where
  "null_mem = \<lparr>ptr = 0, msize = 0\<rparr>"

definition initial_block :: "ThreadSafeArena \<Rightarrow> Memory" where
  "initial_block a = last_mem null_mem (threads a)"

fun dealloc_bytes :: "event list \<Rightarrow> nat" where
  "dealloc_bytes [] = 0"
| "dealloc_bytes (OperatorDelete p n # es) = n + dealloc_bytes es"
| "dealloc_bytes (BlockDealloc f p n # es) = n + dealloc_bytes es"
| "dealloc_bytes (e # es) = dealloc_bytes es"

definition frees :: "world \<Rightarrow> world \<Rightarrow> nat \<Rightarrow> bool" where
  "frees w w' k = (\<exists>es. events w' = events w @ es \<and> dealloc_bytes es = k)"

lemma dealloc_bytes_append: "dealloc_bytes (xs @ ys) = dealloc_bytes xs + dealloc_bytes ys"
  by (induction xs rule: dealloc_bytes.induct) simp_all

lemma dealloc_bytes_cleanups: "list_all is_cleanup cs \<Longrightarrow> dealloc_bytes cs = 0"
  by (induction cs rule: dealloc_bytes.induct) simp_all

lemma dealloc_bytes_event:
  "dealloc_bytes (dealloc_event d m # es) = msize m + dealloc_bytes es"
  by (cases d) (simp_all add: dealloc_event_def)

lemma dealloc_bytes_events:
  "dealloc_bytes (map (dealloc_event d) ms) = sum_list (map msize ms)"
  by (induction ms) (simp_all add: dealloc_bytes_event)

lemma frees_refl: "frees w w 0"
  unfolding frees_def by (rule exI [of _ "[]"]) simp

lemma frees_trans:
  assumes "frees w w1 j" "frees w1 w2 k"
  shows "frees w w2 (j + k)"
proof -
  obtain cs where 1: "events w1 = events w @ cs" "dealloc_bytes cs = j"
    using assms(1) unfolding frees_def by blast
  obtain ds where 2: "events w2 = events w1 @ ds" "dealloc_bytes ds = k"
    using assms(2) unfolding frees_def by blast
  have "events w2 = events w @ (cs @ ds)" "dealloc_bytes (cs @ ds) = j + k"
    using 1 2 by (simp_all add: dealloc_bytes_append)
  then show ?thesis
    unfolding frees_def by blast
qed

lemma frees_cleanup_step: "cleanup_step w w1 \<Longrightarrow> frees w w1 0"
  unfolding cleanup_step_def frees_def by (auto simp: dealloc_bytes_cleanups)

lemma frees_emit: "\<not> is_dealloc e \<Longrightarrow> frees w (emit e w) 0"
  unfolding frees_def emit_def by (rule exI [of _ "[e]"]) (cases e, simp_all)

lemma frees_dealloc_all:
  "frees (fst st) (fst (dealloc_all d st ms)) (sum_list (map msize ms))"
  unfolding frees_def
  by (rule exI [of _ "map (dealloc_event d) ms"])
    (simp add: dealloc_all_events dealloc_bytes_events)

lemma frees_AllocateMemory:
  "AllocateMemory K w po lst n = Inr (w', mem) \<Longrightarrow> frees w w' 0"
  unfolding frees_def
  by (auto simp: AllocateMemory_def emit_def Let_def split: sum.splits option.splits)

lemma frees_InitializeWithPolicy:
  assumes "InitializeWithPolicy K w me mem sz rc pol a = Inr (w', a')"
  shows "frees w w' 0"
proof -
  have "events w' = events w \<or>
      (\<exists>w1 tmp. AllocateMemory K w (Some pol) 0
          (kBlockHeaderSize K + kSerialArenaSize K + kAPSize K) = Inr (w1, tmp) \<and>
        events w' = events w1)"
    using assms
    by (auto simp: InitializeWithPolicy_def Let_def
        split: if_splits sum.splits list.splits option.splits)
  then show ?thesis
    using frees_AllocateMemory by (auto simp: frees_def)
qed

lemma frees_notify_destroy: "frees w (notify_destroy po n w) 0"
  by (simp add: notify_destroy_def frees_refl frees_emit split: option.splits)

lemma frees_notify_reset: "frees w (notify_reset pol n w) 0"
  by (simp add: notify_reset_def frees_refl frees_emit split: option.splits)

text \<open>The cleanup pass changes only the \<open>start\<close> field of the head blocks.\<close>

lemma mems_synced: "map block_mem (blocks_of (synced s)) = map block_mem (blocks_of s)"
  by (simp add: blocks_of_def synced_def block_mem_def)

lemma last_synced: "block_mem (last (blocks_of (synced s))) = block_mem (last (blocks_of s))"
  by (simp add: blocks_of_def synced_def block_mem_def)

lemma freed_shards_synced: "freed_shards mem (map synced ss) = freed_shards mem ss"
  by (induction ss arbitrary: mem) (simp_all add: mems_synced last_synced)

lemma last_mem_synced: "last_mem mem (map synced ss) = last_mem mem ss"
  by (induction ss arbitrary: mem) (simp_all add: last_synced)

lemma TSA_Free_InrE:
  assumes "TSA_Free (fst (TSA_CleanupList K w a)) (snd (TSA_CleanupList K w a)) 0 = Inr (st, mem)"
  obtains d where "GetDeallocator w (policy_ptr a) = Inr d"
    "st = dealloc_all d (fst (TSA_CleanupList K w a), 0) (freed_shards null_mem (threads a))"
    "mem = initial_block a"
proof -
  let ?c = "TSA_CleanupList K w a"
  obtain cs where "fst ?c = w\<lparr>events := events w @ cs\<rparr>"
    using TSA_CleanupList_step [of w K a] unfolding cleanup_step_def by blast
  then have g: "GetDeallocator (fst ?c) (policy_ptr a) = GetDeallocator w (policy_ptr a)"
    by (simp add: GetDeallocator_def load_policy_def)
  obtain d where d: "GetDeallocator w (policy_ptr a) = Inr d"
    using assms g
    by (cases "GetDeallocator w (policy_ptr a)") (auto simp: TSA_Free_def TSA_CleanupList_snd)
  have "st = dealloc_all d (fst ?c, 0) (freed_shards null_mem (threads a))"
    "mem = initial_block a"
    using assms g d
    by (simp_all add: TSA_Free_def TSA_CleanupList_snd Free_shards_eq freed_shards_synced
        last_mem_synced null_mem_def initial_block_def)
  then show ?thesis
    using that d by blast
qed

lemma sum_butlast_last:
  "xs \<noteq> [] \<Longrightarrow> sum_list (map msize (butlast xs)) + msize (last xs) = sum_list (map msize xs)"
  by (induction xs) auto

lemma sum_mems: "sum_list (map msize (map block_mem bs)) = sum_list (map bsize bs)"
  by (induction bs) (simp_all add: block_mem_def)

lemma freed_total:
  assumes "\<forall>s \<in> set ss. base (last (blocks_of s)) \<noteq> 0"
    and "ptr mem \<noteq> 0 \<or> msize mem = 0"
  shows "sum_list (map msize (freed_shards mem ss)) + msize (last_mem mem ss) =
         msize mem + sum_list (map bsize (concat (map blocks_of ss)))"
  using assms
proof (induction ss arbitrary: mem)
  case Nil
  show ?case by simp
next
  case (Cons s ss)
  let ?ms = "map block_mem (blocks_of s)"
  have ne: "?ms \<noteq> []"
    by (simp add: blocks_of_def)
  have l: "block_mem (last (blocks_of s)) = last ?ms"
    by (simp add: last_map blocks_of_def)
  have nz: "ptr (block_mem (last (blocks_of s))) \<noteq> 0"
    using Cons.prems(1) by (simp add: block_mem_def)
  have ih: "sum_list (map msize (freed_shards (last ?ms) ss)) + msize (last_mem (last ?ms) ss) =
      msize (last ?ms) + sum_list (map bsize (concat (map blocks_of ss)))"
    using Cons.IH [of "block_mem (last (blocks_of s))"] Cons.prems(1) nz l by simp
  have s: "sum_list (map msize (butlast ?ms)) + msize (last ?ms) = sum_list (map bsize (blocks_of s))"
    using sum_butlast_last [OF ne] sum_mems [of "blocks_of s"] by simp
  have m: "sum_list (map msize (if ptr mem \<noteq> 0 then [mem] else [])) = msize mem"
    using Cons.prems(2) by auto
  show ?case
    using ih s m by (simp add: l)
qed

lemma total_split:
  assumes "\<forall>s \<in> set (threads a). base (last (blocks_of s)) \<noteq> 0"
  shows "sum_list (map msize (freed_shards null_mem (threads a))) + msize (initial_block a)
         = total_size a"
  using freed_total [OF assms, of null_mem]
  by (simp add: null_mem_def initial_block_def total_size_def)

lemma free_last_frees:
  assumes "free_last a st mem = Inr (w3, n)"
  shows "n = snd st + msize mem \<and>
         frees (fst st) w3 (if user_owned a then 0 else msize mem)"
proof (cases "user_owned a")
  case True
  then show ?thesis
    using assms by (auto simp: free_last_def frees_refl)
next
  case False
  then obtain d where "deallocator d st mem = (w3, n)"
    using assms by (auto simp: free_last_def split: sum.splits)
  then show ?thesis
    using False frees_dealloc_all [of st d "[mem]"] deallocator_count [of d st mem]
    by simp
qed

lemma load_policy_after_free:
  assumes "load_policy (fst (dealloc_all d (w1, k) ms)) p = Inr po"
    and "cleanup_step w w1"
  shows "load_policy w p = Inr po"
proof -
  have "policies w1 = policies w"
    using assms(2) unfolding cleanup_step_def by auto
  then show ?thesis
    using assms(1)
    by (auto simp: load_policy_def dealloc_all_policies split: if_splits option.splits)
qed

lemma teardown_frees:
  assumes nn: "\<forall>s \<in> set (threads a). base (last (blocks_of s)) \<noteq> 0"
    and f: "TSA_Free (fst (TSA_CleanupList K w a)) (snd (TSA_CleanupList K w a)) 0 = Inr (st, mem)"
  shows "mem = initial_block a \<and> snd st + msize mem = total_size a \<and>
         frees w (fst st) (snd st) \<and>
         (\<forall>po. load_policy (fst st) (policy_ptr a) = Inr po \<longrightarrow>
               load_policy w (policy_ptr a) = Inr po)"
proof -
  let ?c = "TSA_CleanupList K w a"
  obtain d where st: "st = dealloc_all d (fst ?c, 0) (freed_shards null_mem (threads a))"
    and mem: "mem = initial_block a"
    using TSA_Free_InrE [OF f] by metis
  have cnt: "snd st = sum_list (map msize (freed_shards null_mem (threads a)))"
    unfolding st by (simp add: dealloc_all_count)
  have tot: "snd st + msize mem = total_size a"
    using total_split [OF nn] cnt mem by simp
  have "frees w (fst ?c) 0"
    using frees_cleanup_step [OF TSA_CleanupList_step] .
  moreover have "frees (fst ?c) (fst st) (snd st)"
    using frees_dealloc_all [of "(fst ?c, 0)" d "freed_shards null_mem (threads a)"] cnt st
    by simp
  ultimately have fr: "frees w (fst st) (snd st)"
    using frees_trans by fastforce
  have lp: "\<forall>po. load_policy (fst st) (policy_ptr a) = Inr po \<longrightarrow>
      load_policy w (policy_ptr a) = Inr po"
    using load_policy_after_free [OF _ TSA_CleanupList_step] st by blast
  show ?thesis
    using mem tot fr lp by blast
qed

lemma last_step_frees:
  assumes "snd st + msize mem = total_size a" "mem = initial_block a"
    and "frees w (fst st) (snd st)"
    and "free_last a1 st mem = Inr (w3, n)" "user_owned a1 = user_owned a"
  shows "n = total_size a \<and>
         frees w w3 (total_size a - (if user_owned a then msize (initial_block a) else 0))"
proof -
  have n: "n = snd st + msize mem"
    and fr: "frees (fst st) w3 (if user_owned a then 0 else msize mem)"
    using free_last_frees [OF assms(4)] assms(5) by simp_all
  have "frees w w3 (snd st + (if user_owned a then 0 else msize mem))"
    using frees_trans [OF assms(3) fr] .
  moreover have "snd st + (if user_owned a then 0 else msize mem) =
      total_size a - (if user_owned a then msize (initial_block a) else 0)"
    using assms(1,2) by auto
  ultimately show ?thesis
    using n assms(1) by simp
qed

text \<open>
  C9. In a region whose shards' oldest blocks have non-null addresses, the byte count that
  Reset returns and that the destructor passes to OnDestroy is the sum of the sizes of all
  blocks of all shards, the user-owned initial block included, while the sizes passed to
  the deallocators add up to that sum without the user-owned initial block.
\<close>

theorem C9_byte_total:
  assumes "\<forall>s \<in> set (threads a). base (last (blocks_of s)) \<noteq> 0"
  shows "(Reset K w me a = Inr (w', a', n) \<longrightarrow>
            n = total_size a \<and>
            frees w w' (total_size a - (if user_owned a then msize (initial_block a) else 0))) \<and>
         (Destroy K w a = Inr w'' \<longrightarrow>
            frees w w'' (total_size a - (if user_owned a then msize (initial_block a) else 0)) \<and>
            (\<forall>pol col. load_policy w (policy_ptr a) = Inr (Some pol) \<and>
                 metrics_collector pol = Some col \<longrightarrow>
               events w'' \<noteq> [] \<and> last (events w'') = OnDestroy col (total_size a)))"
proof (rule conjI; rule impI)
  let ?c = "TSA_CleanupList K w a"
  let ?k = "total_size a - (if user_owned a then msize (initial_block a) else 0)"
  have uo: "user_owned (snd ?c) = user_owned a"
    by (simp add: TSA_CleanupList_snd)
  assume r: "Reset K w me a = Inr (w', a', n)"
  obtain st mem po where f: "TSA_Free (fst ?c) (snd ?c) 0 = Inr (st, mem)"
    and p: "load_policy (fst st) (policy_ptr a) = Inr po"
    using Reset_InrE [OF r] by metis
  have t: "mem = initial_block a" "snd st + msize mem = total_size a" "frees w (fst st) (snd st)"
    using teardown_frees [OF assms f] by auto
  show "n = total_size a \<and> frees w w' ?k"
  proof (cases po)
    case None
    show ?thesis
    proof (cases "user_owned a")
      case True
      then have "w' = fst st" "n = snd st + msize mem"
        using Reset_no_policy [OF r f] p None by simp_all
      moreover have "snd st = total_size a - msize (initial_block a)"
        using t by simp
      ultimately show ?thesis
        using t True by simp
    next
      case False
      then have "free_last (snd ?c) st mem = Inr (w', n)"
        using Reset_no_policy [OF r f] p None by simp
      then show ?thesis
        using last_step_frees [OF t(2) t(1) t(3) _ uo] by simp
    qed
  next
    case (Some pol)
    then obtain w3 where l: "free_last (snd ?c) st mem = Inr (w3, n)"
      and i: "InitializeWithPolicy K (notify_reset pol n w3) me
         (ptr (if user_owned a then mem else \<lparr>ptr = 0, msize = 0\<rparr>))
         (msize (if user_owned a then mem else \<lparr>ptr = 0, msize = 0\<rparr>))
         (record_allocs a) pol (snd ?c) = Inr (w', a')"
      using Reset_policyE [OF r f] p by metis
    have 1: "n = total_size a" "frees w w3 ?k"
      using last_step_frees [OF t(2) t(1) t(3) l uo] by simp_all
    have "frees w3 w' (0 + 0)"
      using frees_trans [OF frees_notify_reset frees_InitializeWithPolicy [OF i]] .
    then show ?thesis
      using frees_trans [OF 1(2)] 1(1) by fastforce
  qed
next
  let ?c = "TSA_CleanupList K w a"
  let ?k = "total_size a - (if user_owned a then msize (initial_block a) else 0)"
  have uo: "user_owned (snd ?c) = user_owned a"
    by (simp add: TSA_CleanupList_snd)
  assume d: "Destroy K w a = Inr w''"
  obtain st mem po w3 m where f: "TSA_Free (fst ?c) (snd ?c) 0 = Inr (st, mem)"
    and p: "load_policy (fst st) (policy_ptr a) = Inr po"
    and l: "free_last (snd ?c) st mem = Inr (w3, m)"
    and w'': "w'' = notify_destroy po m w3"
    using Destroy_InrE [OF d] by metis
  have t: "mem = initial_block a" "snd st + msize mem = total_size a" "frees w (fst st) (snd st)"
    and lp: "load_policy w (policy_ptr a) = Inr po"
    using teardown_frees [OF assms f] p by auto
  have 1: "m = total_size a" "frees w w3 ?k"
    using last_step_frees [OF t(2) t(1) t(3) l uo] by simp_all
  have "frees w w'' (?k + 0)"
    unfolding w'' using frees_trans [OF 1(2) frees_notify_destroy] .
  moreover have "\<forall>pol col. load_policy w (policy_ptr a) = Inr (Some pol) \<and>
      metrics_collector pol = Some col \<longrightarrow>
      events w'' \<noteq> [] \<and> last (events w'') = OnDestroy col (total_size a)"
    using lp 1(1) unfolding w'' by (auto simp: notify_destroy_def emit_def)
  ultimately show "frees w w'' ?k \<and>
      (\<forall>pol col. load_policy w (policy_ptr a) = Inr (Some pol) \<and>
         metrics_collector pol = Some col \<longrightarrow>
         events w'' \<noteq> [] \<and> last (events w'') = OnDestroy col (total_size a))"
    by simp
qed


lemma policy_arena_sizes:
  "total_size policy_arena = 5376" "initial_block policy_arena = \<lparr>ptr = 4096, msize = 2048\<rparr>"
  "user_owned policy_arena" "policy_ptr policy_arena = 4176"
  "\<forall>s \<in> set (threads policy_arena). base (last (blocks_of s)) \<noteq> 0"
  "load_policy policy_world 4176 = Inr (Some pol3)"
  by (simp_all add: total_size_def initial_block_def policy_arena_def blocks_of_def
      block_mem_def null_mem_def load_policy_def policy_world_def)

theorem C9_byte_total_witness:
  "(\<exists>w' a'. Reset K64 policy_world 7 policy_arena = Inr (w', a', 5376) \<and>
      frees policy_world w' 3328) \<and>
   (\<exists>w''. Destroy K64 policy_world policy_arena = Inr w'' \<and>
      frees policy_world w'' 3328 \<and> last (events w'') = OnDestroy 3 5376)"
proof -
  obtain w' a' where r: "Reset K64 policy_world 7 policy_arena = Inr (w', a', 5376)"
    using policy_Reset_value by blast
  obtain w'' where d: "Destroy K64 policy_world policy_arena = Inr w''"
    using policy_Destroy_value by blast
  have c: "metrics_collector pol3 = Some 3"
    by (simp add: pol3_def)
  show ?thesis
    using C9_byte_total [OF policy_arena_sizes(5), of K64 policy_world 7 w' a' 5376 w'']
      r d c policy_arena_sizes(1,2,3,4,6)
    by simp
qed


section \<open>The policy across Reset\<close>

lemma TSA_Free_load_policy:
  assumes "TSA_Free (fst (TSA_CleanupList K w a)) (snd (TSA_CleanupList K w a)) 0 = Inr (st, mem)"
    and "load_policy (fst st) p = Inr po"
  shows "load_policy w p = Inr po"
proof -
  obtain d where "st = dealloc_all d (fst (TSA_CleanupList K w a), 0)
      (freed_shards null_mem (threads a))"
    using TSA_Free_InrE [OF assms(1)] by metis
  then show ?thesis
    using load_policy_after_free [OF _ TSA_CleanupList_step] assms(2) by blast
qed

lemma InitializeWithPolicy_result:
  assumes "InitializeWithPolicy K w me mem sz rc pol a = Inr (w', a')"
  shows "\<exists>s. threads a' = [s] \<and> sa_owner s = me \<and> sa_chain s = [] \<and>
           policy_ptr a' = base (sa_head s) + (kBlockHeaderSize K + kSerialArenaSize K) \<and>
           policies w' (policy_ptr a') = Some pol \<and> record_allocs a' = rc \<and>
           (user_owned a' \<longleftrightarrow>
              mem \<noteq> 0 \<and> kBlockHeaderSize K + kSerialArenaSize K + kAPSize K \<le> sz) \<and>
           (user_owned a' \<longrightarrow> base (sa_head s) = mem \<and> bsize (sa_head s) = sz \<and>
              events w' = events w)"
  using assms
  by (auto simp: InitializeWithPolicy_def Let_def SetInitialBlock_def New_def
      SerialArena_ctor_def new_Block_def Pointer_def MaybeAllocateAligned_def Init_def
      split: if_splits sum.splits)




section \<open>The state of a region after Reset\<close>

text \<open>
  A thread registers a cleanup in a Fresh region without policy and without initial
  block, which makes the region Active with one shard.
\<close>

definition plain_run :: "error + (world \<times> ThreadSafeArena)" where
  "plain_run = AddCleanupFallback K64 world0 7 5000 1 fresh_arena"

definition shard_count :: "error + (world \<times> ThreadSafeArena) \<Rightarrow> nat" where
  "shard_count r = (case r of Inl e \<Rightarrow> 0 | Inr (w, a) \<Rightarrow> length (threads a))"

definition after_reset :: "error + (world \<times> ThreadSafeArena) \<Rightarrow> error + ThreadSafeArena" where
  "after_reset r =
     (case r of
        Inl e \<Rightarrow> Inl e
      | Inr (w, a) \<Rightarrow>
          (case Reset K64 w 7 a of Inl e \<Rightarrow> Inl e | Inr (w', a', n) \<Rightarrow> Inr a'))"

text \<open>
  C8, as stated, fails: that region has one shard, and after Reset it has none; it is
  the Fresh region again.
\<close>

theorem C8_counterexample:
  "shard_count plain_run = 1 \<and> after_reset plain_run = Inr fresh_arena \<and>
   threads fresh_arena = []"
  by (simp add: plain_run_def shard_count_def after_reset_def
      AddCleanupFallback_def AddCleanup_def GetSerialArenaFallback_def AllocateMemory_def
      block_size_for_def default_policy_def SIZE_MAX_def New_def SerialArena_ctor_def
      new_Block_def Pointer_def mask8_def HasSpace_def AlignUpTo8_def
      Reset_def TSA_CleanupList_def CleanupList_def cleanup_block_def node_diff_def
      run_nodes.simps call_node_def TSA_Free_def GetDeallocator_def Free_def block_mem_def
      deallocator_def free_last_def release_def inside_def emit_def Let_def Init_def
      fresh_arena_def world0_def)

lemma InitializeWithPolicy_any_arena:
  "InitializeWithPolicy K w me mem sz rc pol a = InitializeWithPolicy K w me mem sz rc pol b"
proof -
  have i: "Init rc a\<lparr>user_owned := u, policy_ptr := 0\<rparr> = Init rc b\<lparr>user_owned := u, policy_ptr := 0\<rparr>"
    for u
    by (simp add: Init_def)
  show ?thesis
    unfolding InitializeWithPolicy_def Let_def i [of True] i [of False] SetInitialBlock_def
    by (rule refl)
qed

lemma load_policy_None: "load_policy w p = Inr None \<Longrightarrow> p = 0"
  by (auto simp: load_policy_def split: if_splits option.splits)

lemma InitializeFrom_fresh:
  assumes "policy_ptr a = 0" "mem \<noteq> 0" "kBlockHeaderSize K + kSerialArenaSize K \<le> sz"
  shows "InitializeFrom K me mem sz a = InitializeFrom K me mem sz fresh_arena"
proof -
  have "Init False a\<lparr>user_owned := True\<rparr> = Init False fresh_arena\<lparr>user_owned := True\<rparr>"
    using assms(1) by (simp add: Init_def fresh_arena_def)
  then show ?thesis
    unfolding InitializeFrom_def Let_def using assms(2,3) by simp
qed

lemma InitializeFrom_shards:
  assumes "InitializeFrom K me mem sz a = Inr a'"
  shows "if mem \<noteq> 0 \<and> kBlockHeaderSize K + kSerialArenaSize K \<le> sz
         then length (threads a') = 1 else threads a' = []"
  using assms
  by (auto simp: InitializeFrom_def Let_def SetInitialBlock_def Init_def split: if_splits sum.splits)

lemma Destroy_from_steps:
  assumes "TSA_Free (fst (TSA_CleanupList K w a)) (snd (TSA_CleanupList K w a)) 0 = Inr (st, mem)"
    and "load_policy (fst st) (policy_ptr a) = Inr po"
    and "free_last (snd (TSA_CleanupList K w a)) st mem = Inr (w3, n)"
  shows "Destroy K w a = Inr (notify_destroy po n w3)"
  using assms
  by (simp add: Destroy_def Let_def notify_destroy_def TSA_CleanupList_snd)

text \<open>
  C8, amended. A Reset that succeeds tears the region down as the destructor does (the
  destructor succeeds on the same state, with OnDestroy where Reset has OnReset) and
  leaves the region in the state of a newly constructed one: with a policy, the state
  that InitializeWithPolicy gives a new region for the same policy and the user-owned
  initial block if there is one, which has one shard; without a policy and with an
  accepted user-owned initial block, the state that InitializeFrom gives a new region on
  that block, which has one shard; otherwise a state without shards, the Fresh state
  when the initial block is not user-owned.
\<close>

theorem C8_Reset_state:
  assumes "Reset K w me a = Inr (w', a', n)"
  shows "\<exists>w3 po. Destroy K w a = Inr (notify_destroy po n w3) \<and>
           load_policy w (policy_ptr a) = Inr po \<and>
           (case po of
              Some pol \<Rightarrow>
                InitializeWithPolicy K (notify_reset pol n w3) me
                  (ptr (if user_owned a then initial_block a else null_mem))
                  (msize (if user_owned a then initial_block a else null_mem))
                  (record_allocs a) pol fresh_arena = Inr (w', a') \<and>
                length (threads a') = 1
            | None \<Rightarrow>
                w' = w3 \<and>
                (if user_owned a
                 then if ptr (initial_block a) \<noteq> 0 \<and>
                         kBlockHeaderSize K + kSerialArenaSize K \<le> msize (initial_block a)
                      then InitializeFrom K me (ptr (initial_block a)) (msize (initial_block a))
                             fresh_arena = Inr a' \<and>
                           length (threads a') = 1
                      else threads a' = []
                 else a' = fresh_arena))"
proof -
  let ?c = "TSA_CleanupList K w a"
  obtain st mem po where f: "TSA_Free (fst ?c) (snd ?c) 0 = Inr (st, mem)"
    and p: "load_policy (fst st) (policy_ptr a) = Inr po"
    using Reset_InrE [OF assms] by metis
  have lp: "load_policy w (policy_ptr a) = Inr po"
    using TSA_Free_load_policy [OF f p] .
  have mem: "mem = initial_block a"
    using TSA_Free_InrE [OF f] by metis
  have uo: "user_owned (snd ?c) = user_owned a" "policy_ptr (snd ?c) = policy_ptr a"
    by (simp_all add: TSA_CleanupList_snd)
  show ?thesis
  proof (cases po)
    case (Some pol)
    obtain w3 where l: "free_last (snd ?c) st mem = Inr (w3, n)"
      and i: "InitializeWithPolicy K (notify_reset pol n w3) me
         (ptr (if user_owned a then mem else \<lparr>ptr = 0, msize = 0\<rparr>))
         (msize (if user_owned a then mem else \<lparr>ptr = 0, msize = 0\<rparr>))
         (record_allocs a) pol (snd ?c) = Inr (w', a')"
      using Reset_policyE [OF assms f] p Some by metis
    have d: "Destroy K w a = Inr (notify_destroy po n w3)"
      using Destroy_from_steps [OF f p l] .
    have i': "InitializeWithPolicy K (notify_reset pol n w3) me
         (ptr (if user_owned a then initial_block a else null_mem))
         (msize (if user_owned a then initial_block a else null_mem))
         (record_allocs a) pol fresh_arena = Inr (w', a')"
      unfolding null_mem_def mem [symmetric] using i
      by (subst InitializeWithPolicy_any_arena [where b = "snd ?c"])
    have "length (threads a') = 1"
      using InitializeWithPolicy_result [OF i] by auto
    then show ?thesis
      using d lp i' Some by auto
  next
    case None
    have pz: "policy_ptr (snd ?c) = 0"
      using load_policy_None lp None uo by simp
    show ?thesis
    proof (cases "user_owned a")
      case True
      then have i: "InitializeFrom K me (ptr mem) (msize mem) (snd ?c) = Inr a'"
        and w': "w' = fst st" and n: "n = snd st + msize mem"
        using Reset_no_policy [OF assms f] p None by simp_all
      have l: "free_last (snd ?c) st mem = Inr (fst st, n)"
        using True uo n by (simp add: free_last_def)
      have d: "Destroy K w a = Inr (notify_destroy po n (fst st))"
        using Destroy_from_steps [OF f p l] .
      have sh: "if ptr mem \<noteq> 0 \<and> kBlockHeaderSize K + kSerialArenaSize K \<le> msize mem
         then length (threads a') = 1 else threads a' = []"
        using InitializeFrom_shards [OF i] .
      have fr: "ptr mem \<noteq> 0 \<and> kBlockHeaderSize K + kSerialArenaSize K \<le> msize mem \<Longrightarrow>
          InitializeFrom K me (ptr mem) (msize mem) fresh_arena = Inr a'"
        using InitializeFrom_fresh [OF pz] i by simp
      show ?thesis
        using d lp None True w' sh fr mem by (auto split: if_splits)
    next
      case False
      then have l: "free_last (snd ?c) st mem = Inr (w', n)"
        and a': "a' = Init False (snd ?c)"
        using Reset_no_policy [OF assms f] p None by simp_all
      have d: "Destroy K w a = Inr (notify_destroy po n w')"
        using Destroy_from_steps [OF f p l] .
      have "a' = fresh_arena"
        using a' pz False uo by (simp add: Init_def fresh_arena_def TSA_CleanupList_snd)
      then show ?thesis
        using d lp None False by auto
    qed
  qed
qed

theorem C8_Reset_state_witness:
  "\<exists>w' a' n w3. Reset K64 policy_world 7 policy_arena = Inr (w', a', n) \<and>
     Destroy K64 policy_world policy_arena = Inr (notify_destroy (Some pol3) n w3) \<and>
     InitializeWithPolicy K64 (notify_reset pol3 n w3) 7 4096 2048 False pol3 fresh_arena
       = Inr (w', a') \<and>
     length (threads a') = 1"
proof -
  obtain w' a' where r: "Reset K64 policy_world 7 policy_arena = Inr (w', a', 5376)"
    using policy_Reset_value by blast
  have ra: "record_allocs policy_arena = False"
    by (simp add: policy_arena_def)
  show ?thesis
    using C8_Reset_state [OF r] r policy_arena_sizes(2,3,4,6) ra
    by auto
qed


section \<open>The user-owned initial block\<close>

fun deallocs_addr :: "addr \<Rightarrow> event \<Rightarrow> bool" where
  "deallocs_addr x (OperatorDelete p n) = (p = x)"
| "deallocs_addr x (BlockDealloc f p n) = (p = x)"
| "deallocs_addr x e = False"

text \<open>From \<open>w\<close> to \<open>w'\<close> the trace grows by events that give no memory at address \<open>x\<close> back.\<close>

definition keeps :: "addr \<Rightarrow> world \<Rightarrow> world \<Rightarrow> bool" where
  "keeps x w w' = (\<exists>es. events w' = events w @ es \<and> \<not> list_ex (deallocs_addr x) es)"

text \<open>The blocks of a region other than the last block of its last shard.\<close>

definition other_blocks :: "ThreadSafeArena \<Rightarrow> Block list" where
  "other_blocks a = butlast (concat (map blocks_of (threads a)))"

lemma keeps_refl: "keeps x w w"
  unfolding keeps_def by (rule exI [of _ "[]"]) simp

lemma keeps_trans:
  assumes "keeps x w w1" "keeps x w1 w2"
  shows "keeps x w w2"
proof -
  obtain cs where 1: "events w1 = events w @ cs" "\<not> list_ex (deallocs_addr x) cs"
    using assms(1) unfolding keeps_def by blast
  obtain ds where 2: "events w2 = events w1 @ ds" "\<not> list_ex (deallocs_addr x) ds"
    using assms(2) unfolding keeps_def by blast
  have "events w2 = events w @ (cs @ ds)" "\<not> list_ex (deallocs_addr x) (cs @ ds)"
    using 1 2 by simp_all
  then show ?thesis
    unfolding keeps_def by blast
qed

lemma cleanup_keeps_addr: "is_cleanup e \<Longrightarrow> \<not> deallocs_addr x e"
  by (cases e) simp_all

lemma keeps_cleanup_step: "cleanup_step w w1 \<Longrightarrow> keeps x w w1"
  unfolding cleanup_step_def keeps_def
  by (auto simp: list_all_iff list_ex_iff cleanup_keeps_addr)

lemma keeps_emit: "\<not> deallocs_addr x e \<Longrightarrow> keeps x w (emit e w)"
  unfolding keeps_def emit_def by (rule exI [of _ "[e]"]) simp

lemma deallocs_addr_event: "deallocs_addr x (dealloc_event d m) = (ptr m = x)"
  by (cases d) (simp_all add: dealloc_event_def)

lemma keeps_dealloc_all:
  "x \<notin> ptr ` set ms \<Longrightarrow> keeps x (fst st) (fst (dealloc_all d st ms))"
  unfolding keeps_def
  by (rule exI [of _ "map (dealloc_event d) ms"])
    (auto simp: dealloc_all_events list_ex_iff deallocs_addr_event)

lemma keeps_AllocateMemory:
  "AllocateMemory K w po lst n = Inr (w', mem) \<Longrightarrow> keeps x w w'"
  unfolding keeps_def
  by (auto simp: AllocateMemory_def emit_def Let_def split: sum.splits option.splits)

lemma keeps_InitializeWithPolicy:
  assumes "InitializeWithPolicy K w me mem sz rc pol a = Inr (w', a')"
  shows "keeps x w w'"
proof -
  have "events w' = events w \<or>
      (\<exists>w1 tmp. AllocateMemory K w (Some pol) 0
          (kBlockHeaderSize K + kSerialArenaSize K + kAPSize K) = Inr (w1, tmp) \<and>
        events w' = events w1)"
    using assms
    by (auto simp: InitializeWithPolicy_def Let_def
        split: if_splits sum.splits list.splits option.splits)
  then show ?thesis
    using keeps_AllocateMemory [of K w "Some pol" 0 _ _ _ x] by (auto simp: keeps_def)
qed

lemma keeps_notify_destroy: "keeps x w (notify_destroy po n w)"
  by (simp add: notify_destroy_def keeps_refl keeps_emit split: option.splits)

lemma keeps_notify_reset: "keeps x w (notify_reset pol n w)"
  by (simp add: notify_reset_def keeps_refl keeps_emit split: option.splits)

lemma butlast_mems:
  "bs \<noteq> [] \<Longrightarrow> butlast (map block_mem bs @ ms) =
     butlast (map block_mem bs) @ butlast (block_mem (last bs) # ms)"
  by (induction bs) auto

lemma freed_shards_subset:
  "set (freed_shards mem ss) \<subseteq>
     set (butlast (mem # map block_mem (concat (map blocks_of ss))))"
proof (induction ss arbitrary: mem)
  case Nil
  show ?case by simp
next
  case (Cons s ss)
  define R where "R = map block_mem (concat (map blocks_of ss))"
  define B where "B = butlast (block_mem (last (blocks_of s)) # R)"
  define M where "M = map block_mem (blocks_of s)"
  have ne: "blocks_of s \<noteq> []"
    by (simp add: blocks_of_def)
  have ih: "set (freed_shards (block_mem (last (blocks_of s))) ss) \<subseteq> set B"
    unfolding B_def R_def using Cons.IH .
  have b: "butlast (M @ R) = butlast M @ B"
    unfolding B_def M_def using butlast_mems [OF ne, of R] .
  have "M @ R \<noteq> []"
    using ne by (simp add: M_def)
  then have "butlast (mem # (M @ R)) = mem # butlast (M @ R)"
    by simp
  then have r: "butlast (mem # (M @ R)) = mem # butlast M @ B"
    unfolding b .
  have all: "map block_mem (concat (map blocks_of (s # ss))) = M @ R"
    by (simp add: M_def R_def)
  have "set (freed_shards mem (s # ss)) \<subseteq> insert mem (set (butlast M) \<union> set B)"
    using ih by (auto simp: M_def)
  then show ?case
    unfolding all r by simp
qed

lemma freed_other_blocks:
  assumes "ss \<noteq> []"
  shows "ptr ` set (freed_shards null_mem ss) \<subseteq>
         insert 0 (base ` set (butlast (concat (map blocks_of ss))))"
proof -
  have ne: "concat (map blocks_of ss) \<noteq> []"
    using assms by (cases ss) (simp_all add: blocks_of_def)
  have "butlast (null_mem # map block_mem (concat (map blocks_of ss))) =
      null_mem # map block_mem (butlast (concat (map blocks_of ss)))"
    using ne by (simp add: map_butlast)
  then have "set (freed_shards null_mem ss) \<subseteq>
      insert null_mem (block_mem ` set (butlast (concat (map blocks_of ss))))"
    using freed_shards_subset [of null_mem ss] by simp
  then show ?thesis
    by (auto simp: null_mem_def block_mem_def)
qed

lemma teardown_keeps:
  assumes "threads a \<noteq> []" "ptr (initial_block a) \<noteq> 0"
    and "ptr (initial_block a) \<notin> base ` set (other_blocks a)"
    and "TSA_Free (fst (TSA_CleanupList K w a)) (snd (TSA_CleanupList K w a)) 0 = Inr (st, mem)"
  shows "keeps (ptr (initial_block a)) w (fst st) \<and> mem = initial_block a"
proof -
  let ?c = "TSA_CleanupList K w a"
  let ?x = "ptr (initial_block a)"
  obtain d where st: "st = dealloc_all d (fst ?c, 0) (freed_shards null_mem (threads a))"
    and mem: "mem = initial_block a"
    using TSA_Free_InrE [OF assms(4)] by metis
  have sub: "ptr ` set (freed_shards null_mem (threads a)) \<subseteq>
      insert 0 (base ` set (other_blocks a))"
    using freed_other_blocks [OF assms(1)] by (simp add: other_blocks_def)
  have "?x \<notin> insert 0 (base ` set (other_blocks a))"
    using assms(2,3) by simp
  then have nf: "?x \<notin> ptr ` set (freed_shards null_mem (threads a))"
    using sub by (metis subsetD)
  have k1: "keeps ?x w (fst ?c)"
    by (rule keeps_cleanup_step [OF TSA_CleanupList_step])
  have k2: "keeps ?x (fst ?c) (fst st)"
    unfolding st using keeps_dealloc_all [OF nf, of "(fst ?c, 0)" d] by simp
  show ?thesis
    using keeps_trans [OF k1 k2] mem by simp
qed

lemma mask8_le: "mask8 n \<le> n"
  by (simp add: mask8_def)

lemma InitializeWithPolicy_within:
  assumes "InitializeWithPolicy K w me mem sz rc pol a = Inr (w', a')"
  shows "\<forall>s \<in> set (threads a'). base (sa_head s) \<le> sa_ptr s \<and>
           sa_limit s \<le> base (sa_head s) + bsize (sa_head s)"
  using assms
  by (auto simp: InitializeWithPolicy_def Let_def SetInitialBlock_def New_def
      SerialArena_ctor_def new_Block_def Pointer_def MaybeAllocateAligned_def Init_def mask8_def
      split: if_splits sum.splits)

lemma InitializeFrom_accepted:
  assumes "InitializeFrom K me mem sz a = Inr a'"
    and "mem \<noteq> 0" "kBlockHeaderSize K + kSerialArenaSize K \<le> sz"
  shows "user_owned a' \<and> \<not> record_allocs a' \<and>
         threads a' = [SerialArena_ctor K (new_Block mem sz) me]"
  using assms
  by (auto simp: InitializeFrom_def Let_def SetInitialBlock_def New_def Init_def
      split: if_splits)

lemma allocate_in_only_shard:
  assumes "threads a = [s]" "sa_owner s = me" "\<not> record_allocs a"
    and "HasSpace s (AlignUpTo8 m)"
  shows "TSA_AllocateAlignedFallback K w me m a =
           Inr (w, a\<lparr>threads := [s\<lparr>sa_ptr := sa_ptr s + AlignUpTo8 m\<rparr>]\<rparr>, sa_ptr s)"
  using assms
  by (simp add: TSA_AllocateAlignedFallback_def GetSerialArenaFallback_def)

lemma allocate_in_block:
  assumes "threads a = [s]" "sa_owner s = me"
    and "base (sa_head s) \<le> sa_ptr s"
    and "sa_limit s \<le> base (sa_head s) + bsize (sa_head s)"
  shows "\<forall>m. \<not> record_allocs a \<and> HasSpace s (AlignUpTo8 m) \<longrightarrow>
           (\<exists>a2 p. TSA_AllocateAlignedFallback K w me m a = Inr (w, a2, p) \<and>
              base (sa_head s) \<le> p \<and>
              p + AlignUpTo8 m \<le> base (sa_head s) + bsize (sa_head s))"
proof (intro allI impI)
  fix m
  assume h: "\<not> record_allocs a \<and> HasSpace s (AlignUpTo8 m)"
  then have "TSA_AllocateAlignedFallback K w me m a =
      Inr (w, a\<lparr>threads := [s\<lparr>sa_ptr := sa_ptr s + AlignUpTo8 m\<rparr>]\<rparr>, sa_ptr s)"
    using allocate_in_only_shard [OF assms(1,2)] by simp
  moreover have "sa_ptr s + AlignUpTo8 m \<le> base (sa_head s) + bsize (sa_head s)"
    using h assms(4) by (simp add: HasSpace_def)
  ultimately show "\<exists>a2 p. TSA_AllocateAlignedFallback K w me m a = Inr (w, a2, p) \<and>
      base (sa_head s) \<le> p \<and> p + AlignUpTo8 m \<le> base (sa_head s) + bsize (sa_head s)"
    using assms(3) by simp
qed

text \<open>
  C3. Take a region whose initial block is user-owned and was accepted (non-null, large
  enough for the header, the SerialArena and, with a policy, the policy copy) and whose
  address is the address of no other block of the region. A Reset that succeeds hands that
  address to no deallocator and leaves a region with the user-owned flag set and a single
  shard whose only block is that buffer; every allocation by the resetting thread that
  the shard has room for (in a region that does not record allocations) then succeeds
  without a new block and lies inside the buffer. A destructor that succeeds hands that
  address to no deallocator.
\<close>

theorem C3_user_block_retained:
  assumes "user_owned a" "threads a \<noteq> []"
    and "ptr (initial_block a) \<noteq> 0"
    and "kBlockHeaderSize K + kSerialArenaSize K + (if policy_ptr a = 0 then 0 else kAPSize K)
           \<le> msize (initial_block a)"
    and "ptr (initial_block a) \<notin> base ` set (other_blocks a)"
  shows "(Reset K w me a = Inr (w', a', n) \<longrightarrow>
            keeps (ptr (initial_block a)) w w' \<and> user_owned a' \<and>
            (\<exists>s. threads a' = [s] \<and> sa_chain s = [] \<and>
               base (sa_head s) = ptr (initial_block a) \<and>
               bsize (sa_head s) = msize (initial_block a) \<and>
               (\<forall>m. \<not> record_allocs a' \<and> HasSpace s (AlignUpTo8 m) \<longrightarrow>
                  (\<exists>a2 p. TSA_AllocateAlignedFallback K w' me m a' = Inr (w', a2, p) \<and>
                     ptr (initial_block a) \<le> p \<and>
                     p + AlignUpTo8 m \<le> ptr (initial_block a) + msize (initial_block a))))) \<and>
         (Destroy K w a = Inr w'' \<longrightarrow> keeps (ptr (initial_block a)) w w'')"
proof (rule conjI; rule impI)
  let ?c = "TSA_CleanupList K w a"
  let ?x = "ptr (initial_block a)"
  have uo: "user_owned (snd ?c)"
    using assms(1) by (simp add: TSA_CleanupList_snd)
  assume d: "Destroy K w a = Inr w''"
  obtain st mem po w3 m where f: "TSA_Free (fst ?c) (snd ?c) 0 = Inr (st, mem)"
    and l: "free_last (snd ?c) st mem = Inr (w3, m)"
    and w'': "w'' = notify_destroy po m w3"
    using Destroy_InrE [OF d] by metis
  have k: "keeps ?x w (fst st)"
    using teardown_keeps [OF assms(2,3,5) f] by simp
  have "w3 = fst st"
    using l uo by (simp add: free_last_def)
  then show "keeps ?x w w''"
    unfolding w'' using keeps_trans [OF k keeps_notify_destroy] by simp
next
  let ?c = "TSA_CleanupList K w a"
  let ?x = "ptr (initial_block a)"
  let ?sz = "msize (initial_block a)"
  have uo: "user_owned (snd ?c)"
    using assms(1) by (simp add: TSA_CleanupList_snd)
  assume r: "Reset K w me a = Inr (w', a', n)"
  obtain st mem po where f: "TSA_Free (fst ?c) (snd ?c) 0 = Inr (st, mem)"
    and p: "load_policy (fst st) (policy_ptr a) = Inr po"
    using Reset_InrE [OF r] by metis
  have k: "keeps ?x w (fst st)" and mem: "mem = initial_block a"
    using teardown_keeps [OF assms(2,3,5) f] by simp_all
  have "keeps ?x w w' \<and> user_owned a' \<and>
      (\<exists>s. threads a' = [s] \<and> sa_owner s = me \<and> sa_chain s = [] \<and>
         base (sa_head s) = ?x \<and> bsize (sa_head s) = ?sz \<and>
         base (sa_head s) \<le> sa_ptr s \<and> sa_limit s \<le> base (sa_head s) + bsize (sa_head s))"
  proof (cases po)
    case None
    then have pz: "policy_ptr a = 0"
      using load_policy_None TSA_Free_load_policy [OF f p] by simp
    have i: "InitializeFrom K me ?x ?sz (snd ?c) = Inr a'" and w': "w' = fst st"
      using Reset_no_policy [OF r f] p None assms(1) mem by simp_all
    have sz: "kBlockHeaderSize K + kSerialArenaSize K \<le> ?sz"
      using assms(4) pz by simp
    have "user_owned a' \<and> threads a' = [SerialArena_ctor K (new_Block ?x ?sz) me]"
      using InitializeFrom_accepted [OF i assms(3) sz] by simp
    then show ?thesis
      using k w' mask8_le [of ?sz]
      by (simp add: SerialArena_ctor_def new_Block_def Pointer_def)
  next
    case (Some pol)
    then have pn: "policy_ptr a \<noteq> 0"
      using TSA_Free_load_policy [OF f p] by (auto simp: load_policy_def split: if_splits)
    obtain w3 where l: "free_last (snd ?c) st mem = Inr (w3, n)"
      and i: "InitializeWithPolicy K (notify_reset pol n w3) me
         (ptr (if user_owned a then mem else \<lparr>ptr = 0, msize = 0\<rparr>))
         (msize (if user_owned a then mem else \<lparr>ptr = 0, msize = 0\<rparr>))
         (record_allocs a) pol (snd ?c) = Inr (w', a')"
      using Reset_policyE [OF r f] p Some by metis
    have w3: "w3 = fst st"
      using l uo by (simp add: free_last_def)
    have i': "InitializeWithPolicy K (notify_reset pol n w3) me ?x ?sz
         (record_allocs a) pol (snd ?c) = Inr (w', a')"
      using i assms(1) mem by simp
    have acc: "?x \<noteq> 0 \<and> kBlockHeaderSize K + kSerialArenaSize K + kAPSize K \<le> ?sz"
      using assms(3,4) pn by simp
    obtain s where s: "threads a' = [s]" "sa_owner s = me" "sa_chain s = []"
      "user_owned a'" "base (sa_head s) = ?x" "bsize (sa_head s) = ?sz"
      using InitializeWithPolicy_result [OF i'] acc by auto
    have wi: "base (sa_head s) \<le> sa_ptr s \<and> sa_limit s \<le> base (sa_head s) + bsize (sa_head s)"
      using InitializeWithPolicy_within [OF i'] s(1) by simp
    have "keeps ?x w3 w'"
      using keeps_trans [OF keeps_notify_reset keeps_InitializeWithPolicy [OF i']] .
    then have "keeps ?x w w'"
      using keeps_trans [OF k] w3 by simp
    then show ?thesis
      using s wi by simp
  qed
  then obtain s where k': "keeps ?x w w'" and u': "user_owned a'"
    and s: "threads a' = [s]" "sa_owner s = me" "sa_chain s = []"
    "base (sa_head s) = ?x" "bsize (sa_head s) = ?sz"
    and wi: "base (sa_head s) \<le> sa_ptr s" "sa_limit s \<le> base (sa_head s) + bsize (sa_head s)"
    by blast
  have al: "\<forall>m. \<not> record_allocs a' \<and> HasSpace s (AlignUpTo8 m) \<longrightarrow>
      (\<exists>a2 p. TSA_AllocateAlignedFallback K w' me m a' = Inr (w', a2, p) \<and>
         ?x \<le> p \<and> p + AlignUpTo8 m \<le> ?x + ?sz)"
    using allocate_in_block [OF s(1,2) wi, of K w'] s(4,5) by simp
  show "keeps ?x w w' \<and> user_owned a' \<and>
      (\<exists>s. threads a' = [s] \<and> sa_chain s = [] \<and> base (sa_head s) = ?x \<and>
         bsize (sa_head s) = ?sz \<and>
         (\<forall>m. \<not> record_allocs a' \<and> HasSpace s (AlignUpTo8 m) \<longrightarrow>
            (\<exists>a2 p. TSA_AllocateAlignedFallback K w' me m a' = Inr (w', a2, p) \<and>
               ?x \<le> p \<and> p + AlignUpTo8 m \<le> ?x + ?sz)))"
    using k' u' s al by blast
qed


theorem C3_user_block_retained_witness:
  "\<exists>w' a' n. Reset K64 policy_world 7 policy_arena = Inr (w', a', n) \<and>
     keeps 4096 policy_world w' \<and> user_owned a' \<and>
     (\<exists>a2 p. TSA_AllocateAlignedFallback K64 w' 7 100 a' = Inr (w', a2, p) \<and>
        4096 \<le> p \<and> p + 104 \<le> 4096 + 2048) \<and>
     (\<exists>w''. Destroy K64 policy_world policy_arena = Inr w'' \<and> keeps 4096 policy_world w'')"
proof -
  define s0 where "s0 = \<lparr>sa_owner = 7, sa_head = \<lparr>base = 4096, bsize = 2048, start = 0\<rparr>,
      sa_chain = [], sa_space_used = 0, sa_space_allocated = 2048,
      sa_ptr = 4216, sa_limit = 6144\<rparr>"
  define a' where "a' = \<lparr>threads = [s0], user_owned = True, policy_ptr = 4176,
      record_allocs = False\<rparr>"
  obtain w' where r: "Reset K64 policy_world 7 policy_arena = Inr (w', a', 5376)"
    using policy_Reset_value unfolding a'_def s0_def by blast
  obtain w'' where d: "Destroy K64 policy_world policy_arena = Inr w''"
    using policy_Destroy_value by blast
  have h2: "threads policy_arena \<noteq> []"
    by (simp add: policy_arena_def)
  have h3: "ptr (initial_block policy_arena) \<noteq> 0"
    using policy_arena_sizes(2) by simp
  have h4: "kBlockHeaderSize K64 + kSerialArenaSize K64 +
      (if policy_ptr policy_arena = 0 then 0 else kAPSize K64) \<le> msize (initial_block policy_arena)"
    using policy_arena_sizes(2,4) by simp
  have h5: "ptr (initial_block policy_arena) \<notin> base ` set (other_blocks policy_arena)"
    using policy_arena_sizes(2) by (simp add: other_blocks_def policy_arena_def blocks_of_def)
  note t = C3_user_block_retained [OF policy_arena_sizes(3) h2 h3 h4 h5,
      where w = policy_world and me = 7 and w' = w' and a' = a' and n = 5376 and w'' = w'']
  have k: "keeps 4096 policy_world w'" "keeps 4096 policy_world w''"
    using t r d policy_arena_sizes(2) by simp_all
  have "\<exists>s. threads a' = [s] \<and>
      (\<forall>m. \<not> record_allocs a' \<and> HasSpace s (AlignUpTo8 m) \<longrightarrow>
         (\<exists>a2 p. TSA_AllocateAlignedFallback K64 w' 7 m a' = Inr (w', a2, p) \<and>
            4096 \<le> p \<and> p + AlignUpTo8 m \<le> 4096 + 2048))"
    using t r policy_arena_sizes(2) by auto
  then have al: "\<forall>m. \<not> record_allocs a' \<and> HasSpace s0 (AlignUpTo8 m) \<longrightarrow>
      (\<exists>a2 p. TSA_AllocateAlignedFallback K64 w' 7 m a' = Inr (w', a2, p) \<and>
         4096 \<le> p \<and> p + AlignUpTo8 m \<le> 4096 + 2048)"
    by (simp add: a'_def)
  have "\<not> record_allocs a' \<and> HasSpace s0 (AlignUpTo8 100)" "AlignUpTo8 100 = 104"
    by (simp_all add: a'_def s0_def HasSpace_def AlignUpTo8_def)
  then have "\<exists>a2 p. TSA_AllocateAlignedFallback K64 w' 7 100 a' = Inr (w', a2, p) \<and>
      4096 \<le> p \<and> p + 104 \<le> 4096 + 2048"
    using al [rule_format, of 100] by simp
  moreover have "user_owned a'"
    by (simp add: a'_def)
  ultimately show ?thesis
    using r d k by blast
qed


section \<open>Blocks with an aligned boundary\<close>

text \<open>
  The constructor puts \<open>limit_\<close> on the aligned boundary of its block; AllocateNewBlock
  puts it at the end of the new block, which is the aligned boundary only when the size of
  the block is a multiple of 8.
\<close>

lemma SerialArena_ctor_limit:
  "sa_limit (SerialArena_ctor K b me) = Pointer b (mask8 (bsize b))"
  by (simp add: SerialArena_ctor_def)

lemma AllocateNewBlock_limit:
  assumes "AllocateNewBlock K w s n p = Inr (w', s')"
  shows "sa_limit s' = Pointer (sa_head s') (bsize (sa_head s')) \<and>
         (sa_limit s' = Pointer (sa_head s') (mask8 (bsize (sa_head s')))
            \<longleftrightarrow> bsize (sa_head s') mod 8 = 0)"
proof -
  have "sa_limit s' = Pointer (sa_head s') (bsize (sa_head s'))"
    using assms by (auto simp: AllocateNewBlock_def Let_def split: sum.splits)
  moreover have "m = mask8 m \<longleftrightarrow> m mod 8 = 0" for m :: nat
    unfolding mask8_def by presburger
  ultimately show ?thesis
    by (auto simp: Pointer_def)
qed

text \<open>
  Where the distance from a block's \<open>start\<close> to its aligned boundary is a whole number
  of nodes, CleanupList calls what is stored in each of these nodes once, from \<open>start\<close>
  upwards; a registration that fits takes the node just below \<open>limit_\<close>, so within a block
  the nodes are called newest first.
\<close>

lemma call_node_emit [simp]: "call_node (emit e w) x = call_node w x"
  by (simp add: call_node_def emit_def)

lemma run_nodes_calls:
  assumes "0 < kCleanupSize K"
  shows "run_nodes K w it (it + kCleanupSize K * k) =
           w\<lparr>events := events w @ map (\<lambda>i. call_node w (it + kCleanupSize K * i)) [0 ..< k]\<rparr>"
proof (induction k arbitrary: w it)
  case 0
  show ?case by (subst run_nodes.simps) simp
next
  case (Suc k)
  let ?c = "kCleanupSize K"
  have lt: "it < it + ?c * Suc k"
    using assms by simp
  have "run_nodes K w it (it + ?c * Suc k) =
      run_nodes K (emit (call_node w it) w) (it + ?c) ((it + ?c) + ?c * k)"
    using lt assms by (subst run_nodes.simps) (simp add: add.assoc)
  also have "\<dots> = (emit (call_node w it) w)
      \<lparr>events := events (emit (call_node w it) w) @
         map (\<lambda>i. call_node w ((it + ?c) + ?c * i)) [0 ..< k]\<rparr>"
    using Suc.IH [of "emit (call_node w it) w" "it + ?c"] by simp
  also have "\<dots> = w\<lparr>events := events w @
      call_node w it # map (\<lambda>i. call_node w (it + ?c * Suc i)) [0 ..< k]\<rparr>"
    by (simp add: emit_def add.assoc)
  also have "call_node w it # map (\<lambda>i. call_node w (it + ?c * Suc i)) [0 ..< k] =
      map (\<lambda>i. call_node w (it + ?c * i)) [0 ..< Suc k]"
    by (subst upt_rec) (simp add: map_Suc_upt [symmetric] del: upt_Suc)
  finally show ?case .
qed

lemma cleanup_block_calls:
  assumes "0 < kCleanupSize K"
    and "start b + kCleanupSize K * k = Pointer b (mask8 (bsize b))"
  shows "cleanup_block K w b =
           w\<lparr>events := events w @
               map (\<lambda>i. call_node w (start b + kCleanupSize K * i)) [0 ..< k]\<rparr>"
proof (cases k)
  case 0
  then show ?thesis
    using assms(2) by (simp add: cleanup_block_def node_diff_def)
next
  case (Suc j)
  have pos: "0 < int (kCleanupSize K) * int k"
    using assms(1) Suc by simp
  have d: "int (start b + kCleanupSize K * k) - int (start b) = int (kCleanupSize K) * int k"
    by simp
  have "node_diff K (start b + kCleanupSize K * k) (start b) = int k"
    unfolding node_diff_def Let_def d using pos assms(1) by simp
  then have "node_diff K (Pointer b (mask8 (bsize b))) (start b) = int k"
    unfolding assms(2) .
  then show ?thesis
    using Suc run_nodes_calls [OF assms(1), of w "start b" k] assms(2)
    by (simp add: cleanup_block_def Let_def)
qed

lemma AddCleanup_fits:
  assumes "HasSpace s (kCleanupSize K)"
  shows "AddCleanup K w s el fn p =
           Inr (w\<lparr>nodes := (nodes w)(sa_limit s - kCleanupSize K \<mapsto> \<lparr>elem = el, cleanup = fn\<rparr>)\<rparr>,
                s\<lparr>sa_limit := sa_limit s - kCleanupSize K\<rparr>)"
  using assms by (simp add: AddCleanup_def AlignUpTo8_def)

end
